theory Spec2Isabelle
  imports Complex_Main
begin

section \<open>Data model\<close>

text \<open>
  The game is one React component (\<^verbatim>\<open>HangmanGame\<close>); the newer of its two copies
  (\<^verbatim>\<open>src/unnamed/part_000\<close>, hint cap 4) is the one embedded here. Its state
  variables become the fields of the record \<open>hangman\<close>, under the names of the source.
  The fields of the three interfaces carry a prefix, since \<open>id\<close> is a HOL constant and
  \<open>points\<close> occurs in two interfaces. Numbers that index lists or count are \<open>nat\<close>,
  database ids and points are \<open>int\<close>; a JavaScript string is a \<open>string\<close>, one
  \<open>char\<close> for each code unit (the words and the guesses are ASCII letters).
\<close>

record Team =
  t_id :: int
  t_name :: string
  t_color :: string

record GameWord =
  w_id :: int
  word :: string
  points :: int

record GameScore =
  team_id :: int
  gs_points :: int

datatype gameState = Playing | Won | Lost | Finished | Loading

record hangman =
  teams :: "Team list"
  words :: "GameWord list"
  gameScores :: "GameScore list"
  currentGameId :: "int option"
  currentWordIndex :: nat
  currentTeam :: nat
  originalTeamForQuestion :: nat
  guessedLetters :: "string list"
  revealedPositions :: "nat list"
  defaultRevealedPositions :: "nat list"
  wrongGuesses :: nat
  gameState :: gameState
  inputLetter :: string
  teamsAttempted :: "nat list"
  isPassedQuestion :: bool

text \<open>
  \<^verbatim>\<open>setTimeout(f, d)\<close> is kept as an entry of a list of pending timers: the delay, which
  callback it is, and the state variables the callback closed over. A callback created
  in one render reads the state variables of that render whenever it runs; the setters
  it calls write the live state. So every function below that a timer can run takes the
  state it reads (\<open>c\<close>, the closure) apart from the state it writes. A call made by the
  user's click reads the live state. The source never calls \<^verbatim>\<open>clearTimeout\<close>.
  The 5000 ms timer of \<^verbatim>\<open>resetGame\<close> only hides the leaderboard overlay
  (\<^verbatim>\<open>showRoundStartLeaderboard\<close>); it is presentation state and is left out together
  with \<^verbatim>\<open>wordError\<close>, \<^verbatim>\<open>isLoading\<close>, \<^verbatim>\<open>setupProgress\<close> and \<^verbatim>\<open>sidebarOpen\<close>.
\<close>

datatype callback = PassQuestion | NextWord

datatype timer = Timer nat callback hangman

record game =
  live :: hangman
  timers :: "timer list"

text \<open>
  An event handler that throws has called some setters before; React applies the state
  updates that are queued whether or not the handler returns. So the error carries the
  game that those updates lead to.
\<close>

datatype error = TypeError game

definition maxWrongGuesses :: nat where
  "maxWrongGuesses = 4"

definition currentGameWord :: "hangman \<Rightarrow> GameWord option" where
  \<comment> \<open>\<^verbatim>\<open>words[currentWordIndex]\<close>: \<^verbatim>\<open>undefined\<close> out of range.\<close>
  "currentGameWord c =
     (if currentWordIndex c < length (words c) then Some (words c ! currentWordIndex c)
      else None)"

definition setState :: "(hangman \<Rightarrow> hangman) \<Rightarrow> game \<Rightarrow> game" where
  "setState f g = g\<lparr>live := f (live g)\<rparr>"

definition setTimeout :: "callback \<Rightarrow> hangman \<Rightarrow> nat \<Rightarrow> game \<Rightarrow> game" where
  "setTimeout cb c delay g = g\<lparr>timers := timers g @ [Timer delay cb c]\<rparr>"

section \<open>Strings\<close>

definition toUpperCase_char :: "char \<Rightarrow> char" where
  \<comment> \<open>\<^verbatim>\<open>toUpperCase\<close> on the code units below 128: \<open>a\<close>..\<open>z\<close> (97..122) go to
      \<open>A\<close>..\<open>Z\<close>, every other one stays. The words of the game and the letters typed
      are taken from this range; the model does not follow \<^verbatim>\<open>toUpperCase\<close> on a cased
      letter outside it.\<close>
  "toUpperCase_char ch =
     (let n = (of_char ch :: nat) in if 97 \<le> n \<and> n \<le> 122 then char_of (n - 32) else ch)"

definition toUpperCase :: "string \<Rightarrow> string" where
  "toUpperCase s = map toUpperCase_char s"

fun includes_str :: "string \<Rightarrow> string \<Rightarrow> bool" where
  \<comment> \<open>\<^verbatim>\<open>w.includes(l)\<close>: \<open>l\<close> occurs in \<open>w\<close> as a contiguous substring.\<close>
  "includes_str [] l = (l = [])"
| "includes_str (ch # cs) l = (take (length l) (ch # cs) = l \<or> includes_str cs l)"

section \<open>Default revealed positions\<close>

definition numToReveal :: "nat \<Rightarrow> nat" where
  \<comment> \<open>\<^verbatim>\<open>Math.min(4, Math.floor(wordLength * 0.3))\<close>. The double \<open>wordLength * 0.3\<close> has
      the floor \<open>3 * wordLength div 10\<close> for every length up to 13, and is above 4 from
      14 on, where the minimum is 4 either way.\<close>
  "numToReveal wordLength = min 4 (wordLength * 3 div 10)"

fun pickPositions :: "nat \<Rightarrow> nat list \<Rightarrow> nat list \<Rightarrow> nat list option" where
  \<comment> \<open>The \<^verbatim>\<open>while (positions.length < numToReveal)\<close> loop. The list holds the successive
      values of \<^verbatim>\<open>Math.floor(Math.random() * wordLength)\<close>; the loop has not returned
      (\<open>None\<close>) when the list ends before enough distinct positions were drawn.\<close>
  "pickPositions n positions [] = (if length positions < n then None else Some positions)"
| "pickPositions n positions (randomPos # draws) =
     (if length positions < n then
        (if randomPos \<notin> set positions then pickPositions n (positions @ [randomPos]) draws
         else pickPositions n positions draws)
      else Some positions)"

definition generateDefaultRevealedPositions :: "nat list \<Rightarrow> hangman \<Rightarrow> hangman \<Rightarrow> hangman option" where
  "generateDefaultRevealedPositions draws c s =
     (case currentGameWord c of
        None \<Rightarrow> Some s
      | Some w \<Rightarrow>
          (let wordLength = length (word w) in
           case pickPositions (numToReveal wordLength) [] draws of
             None \<Rightarrow> None
           | Some positions \<Rightarrow> Some (s\<lparr>defaultRevealedPositions := sort positions\<rparr>)))"

section \<open>Rounds, passing and the next word\<close>

definition resetGame :: "hangman \<Rightarrow> hangman" where
  "resetGame s =
     s\<lparr>guessedLetters := [], revealedPositions := [], wrongGuesses := 0,
       gameState := Playing, inputLetter := []\<rparr>"

definition nextWord :: "hangman \<Rightarrow> hangman \<Rightarrow> hangman" where
  \<comment> \<open>The body of the callback that \<^verbatim>\<open>nextTeamOrWord\<close> (3000 ms) and \<^verbatim>\<open>guessLetter\<close>
      (2000 ms) hand to \<^verbatim>\<open>setTimeout\<close>; the two copies are the same text.\<close>
  "nextWord c s =
     (if currentWordIndex c + 1 < length (words c) then
        (let nextWordIndex = currentWordIndex c + 1;
             assignedTeam = nextWordIndex mod 4
         in resetGame
              (s\<lparr>currentWordIndex := nextWordIndex, currentTeam := assignedTeam,
                 originalTeamForQuestion := assignedTeam, teamsAttempted := [],
                 isPassedQuestion := False\<rparr>))
      else s\<lparr>gameState := Finished\<rparr>)"

partial_function (option) findNextTeam :: "nat list \<Rightarrow> nat \<Rightarrow> nat option" where
  \<comment> \<open>\<^verbatim>\<open>while (newTeamsAttempted.includes(nextTeam)) nextTeam = (nextTeam + 1) % 4\<close>;
      \<open>None\<close> when the loop does not end.\<close>
  "findNextTeam newTeamsAttempted nextTeam =
     (if nextTeam \<in> set newTeamsAttempted
      then findNextTeam newTeamsAttempted ((nextTeam + 1) mod 4)
      else Some nextTeam)"

declare findNextTeam.simps [code]

definition nextTeamOrWord :: "hangman \<Rightarrow> game \<Rightarrow> game option" where
  "nextTeamOrWord c g =
     (let newTeamsAttempted = teamsAttempted c @ [currentTeam c];
          g1 = setState (\<lambda>s. s\<lparr>teamsAttempted := newTeamsAttempted\<rparr>) g
      in if length newTeamsAttempted \<ge> 4 then
           Some (setTimeout NextWord c 3000 (setState (\<lambda>s. s\<lparr>gameState := Lost\<rparr>) g1))
         else
           (case findNextTeam newTeamsAttempted ((currentTeam c + 1) mod 4) of
              None \<Rightarrow> None
            | Some nextTeam \<Rightarrow>
                Some (setState resetGame
                       (setState (\<lambda>s. s\<lparr>currentTeam := nextTeam, isPassedQuestion := True\<rparr>) g1))))"

definition passQuestion :: "hangman \<Rightarrow> game \<Rightarrow> game option" where
  "passQuestion c g = nextTeamOrWord c g"

section \<open>Scores\<close>

definition updateGameScore :: "bool \<Rightarrow> hangman \<Rightarrow> int \<Rightarrow> int \<Rightarrow> game \<Rightarrow> game" where
  \<comment> \<open>\<open>updateOk\<close> is the answer of the store: whether the \<^verbatim>\<open>update\<close> of
      \<^verbatim>\<open>game_scores\<close> came back without an error. On an error the function logs it and
      leaves the scores as they are. \<^verbatim>\<open>!currentGameId\<close> holds for \<^verbatim>\<open>null\<close> and for 0.
      The function is \<^verbatim>\<open>async\<close>; its write of \<open>gameScores\<close> is taken with the call.\<close>
  "updateGameScore updateOk c teamId pts g =
     (if currentGameId c = None \<or> currentGameId c = Some 0 then g
      else
        (let currentScore =
               (case find (\<lambda>score. team_id score = teamId) (gameScores c) of
                  None \<Rightarrow> 0
                | Some score \<Rightarrow> gs_points score);
             newPoints = currentScore + pts
         in if \<not> updateOk then g
            else setState
                   (\<lambda>s. s\<lparr>gameScores :=
                             map (\<lambda>score. if team_id score = teamId
                                           then score\<lparr>gs_points := newPoints\<rparr> else score)
                                 (gameScores s)\<rparr>) g))"

section \<open>Guessing a letter\<close>

definition letterPositions :: "string \<Rightarrow> string \<Rightarrow> nat list" where
  \<comment> \<open>\<^verbatim>\<open>wordArray.map((char, index) => (char === letter ? index : -1))
        .filter((pos) => pos !== -1)\<close>, the sentinel -1 written as \<open>None\<close>.\<close>
  "letterPositions wordArray letter =
     map the
       (filter (\<lambda>pos. pos \<noteq> None)
          (map (\<lambda>(index, char). if [char] = letter then Some index else None)
               (enumerate 0 wordArray)))"

definition unrevealedPositions :: "hangman \<Rightarrow> string \<Rightarrow> string \<Rightarrow> nat list" where
  \<comment> \<open>\<^verbatim>\<open>letterPositions.filter((pos) => !revealedPositions.includes(pos) &&
        !defaultRevealedPositions.includes(pos))\<close>\<close>
  "unrevealedPositions c wordArray letter =
     filter (\<lambda>pos. pos \<notin> set (revealedPositions c) \<and>
                    pos \<notin> set (defaultRevealedPositions c))
            (letterPositions wordArray letter)"

definition countWrongGuess :: "hangman \<Rightarrow> game \<Rightarrow> game" where
  \<comment> \<open>The block that stands twice in \<^verbatim>\<open>guessLetter\<close>: for a letter that is not in the
      word, and for a letter all of whose occurrences are shown already.\<close>
  "countWrongGuess c g =
     (let newWrongGuesses = wrongGuesses c + 1;
          g1 = setState (\<lambda>s. s\<lparr>wrongGuesses := newWrongGuesses\<rparr>) g
      in if newWrongGuesses \<ge> maxWrongGuesses then setTimeout PassQuestion c 2000 g1 else g1)"

definition guessLetter :: "bool \<Rightarrow> game \<Rightarrow> error + game" where
  \<comment> \<open>Run by the Guess button or the Enter key, so it reads the live state.
      \<^verbatim>\<open>currentGameWord.word\<close> and \<^verbatim>\<open>teams[currentTeam].id\<close> throw a TypeError on
      \<^verbatim>\<open>undefined\<close>: the first after \<^verbatim>\<open>setGuessedLetters\<close>, the second after
      \<^verbatim>\<open>setGameState("won")\<close>, and both before \<^verbatim>\<open>setInputLetter("")\<close>.\<close>
  "guessLetter updateOk g =
     (let c = live g in
      if inputLetter c = [] then Inr g
      else
        (let letter = toUpperCase (inputLetter c);
             newGuessedLetters = guessedLetters c @ [letter];
             g1 = setState (\<lambda>s. s\<lparr>guessedLetters := newGuessedLetters\<rparr>) g
         in case currentGameWord c of
              None \<Rightarrow> Inl (TypeError g1)
            | Some w \<Rightarrow>
                if \<not> includes_str (word w) letter then
                  Inr (setState (\<lambda>s. s\<lparr>inputLetter := []\<rparr>) (countWrongGuess c g1))
                else
                  (let wordArray = word w;
                       unrevealed = unrevealedPositions c wordArray letter
                   in if length unrevealed > 0 then
                        (let newRevealedPositions = revealedPositions c @ [hd unrevealed];
                             g2 = setState (\<lambda>s. s\<lparr>revealedPositions := newRevealedPositions\<rparr>) g1;
                             allPositions = newRevealedPositions @ defaultRevealedPositions c;
                             uniquePositions = remdups allPositions;
                             isComplete = (length uniquePositions = length wordArray)
                         in if isComplete then
                              (let g3 = setState (\<lambda>s. s\<lparr>gameState := Won\<rparr>) g2 in
                               if currentTeam c < length (teams c) then
                                 (let teamId = t_id (teams c ! currentTeam c);
                                      pts = (if isPassedQuestion c then 5 else points w);
                                      g4 = updateGameScore updateOk c teamId pts g3;
                                      g5 = setTimeout NextWord c 2000 g4
                                  in Inr (setState (\<lambda>s. s\<lparr>inputLetter := []\<rparr>) g5))
                               else Inl (TypeError g3))
                            else Inr (setState (\<lambda>s. s\<lparr>inputLetter := []\<rparr>) g2))
                      else Inr (setState (\<lambda>s. s\<lparr>inputLetter := []\<rparr>) (countWrongGuess c g1)))))"

section \<open>The older copy of the component\<close>

text \<open>
  \<^verbatim>\<open>src/app/page.tsx\<close> is an older copy of the same component. Its game logic differs
  from the newer copy in two places only, which are embedded here: the cap of the hint
  positions is 3, and \<^verbatim>\<open>guessLetter\<close> looks for the first occurrence that is not in
  \<^verbatim>\<open>revealedPositions\<close> (it does not leave out the default revealed positions) and does
  nothing more when there is none.
\<close>

definition numToReveal_page :: "nat \<Rightarrow> nat" where
  \<comment> \<open>\<^verbatim>\<open>Math.min(3, Math.floor(wordLength * 0.3))\<close>\<close>
  "numToReveal_page wordLength = min 3 (wordLength * 3 div 10)"

definition guessLetter_page :: "bool \<Rightarrow> game \<Rightarrow> error + game" where
  \<comment> \<open>\<^verbatim>\<open>letterPositions.find((pos) => !revealedPositions.includes(pos))\<close> is
      \<^verbatim>\<open>undefined\<close> (\<open>None\<close>) when no position is left.\<close>
  "guessLetter_page updateOk g =
     (let c = live g in
      if inputLetter c = [] then Inr g
      else
        (let letter = toUpperCase (inputLetter c);
             newGuessedLetters = guessedLetters c @ [letter];
             g1 = setState (\<lambda>s. s\<lparr>guessedLetters := newGuessedLetters\<rparr>) g
         in case currentGameWord c of
              None \<Rightarrow> Inl (TypeError g1)
            | Some w \<Rightarrow>
                if \<not> includes_str (word w) letter then
                  Inr (setState (\<lambda>s. s\<lparr>inputLetter := []\<rparr>) (countWrongGuess c g1))
                else
                  (let wordArray = word w;
                       unrevealedPosition =
                         find (\<lambda>pos. pos \<notin> set (revealedPositions c))
                              (letterPositions wordArray letter)
                   in case unrevealedPosition of
                        Some pos \<Rightarrow>
                          (let newRevealedPositions = revealedPositions c @ [pos];
                               g2 = setState (\<lambda>s. s\<lparr>revealedPositions := newRevealedPositions\<rparr>) g1;
                               allPositions = newRevealedPositions @ defaultRevealedPositions c;
                               uniquePositions = remdups allPositions;
                               isComplete = (length uniquePositions = length wordArray)
                           in if isComplete then
                                (let g3 = setState (\<lambda>s. s\<lparr>gameState := Won\<rparr>) g2 in
                                 if currentTeam c < length (teams c) then
                                   (let teamId = t_id (teams c ! currentTeam c);
                                        pts = (if isPassedQuestion c then 5 else points w);
                                        g4 = updateGameScore updateOk c teamId pts g3;
                                        g5 = setTimeout NextWord c 2000 g4
                                    in Inr (setState (\<lambda>s. s\<lparr>inputLetter := []\<rparr>) g5))
                                 else Inl (TypeError g3))
                              else Inr (setState (\<lambda>s. s\<lparr>inputLetter := []\<rparr>) g2))
                      | None \<Rightarrow> Inr (setState (\<lambda>s. s\<lparr>inputLetter := []\<rparr>) g1))))"

section \<open>Starting a game, the word effect and the timers\<close>

definition initialState :: hangman where
  \<comment> \<open>The initial values given to \<^verbatim>\<open>useState\<close>.\<close>
  "initialState =
     \<lparr>teams = [], words = [], gameScores = [], currentGameId = None, currentWordIndex = 0,
      currentTeam = 0, originalTeamForQuestion = 0, guessedLetters = [],
      revealedPositions = [], defaultRevealedPositions = [], wrongGuesses = 0,
      gameState = Loading, inputLetter = [], teamsAttempted = [], isPassedQuestion = False\<rparr>"

definition autoStartGame :: "Team list \<Rightarrow> GameWord list \<Rightarrow> int option \<Rightarrow> bool \<Rightarrow> hangman \<Rightarrow> hangman" where
  \<comment> \<open>\<open>gameData\<close> is the id of the row inserted into \<^verbatim>\<open>games\<close> (\<open>None\<close>: the insert
      failed), \<open>scoresOk\<close> whether the insert into \<^verbatim>\<open>game_scores\<close> succeeded. Every
      failure ends in the \<^verbatim>\<open>catch\<close>, which only sets \<^verbatim>\<open>wordError\<close>; so does
      \<^verbatim>\<open>teamsData[0].id\<close> on an empty list.\<close>
  "autoStartGame teamsData wordsData gameData scoresOk s =
     (if wordsData = [] then s
      else if teamsData = [] then s
      else
        (case gameData of
           None \<Rightarrow> s
         | Some gameId \<Rightarrow>
             (let s1 = s\<lparr>currentGameId := Some gameId\<rparr>;
                  scoreInserts = map (\<lambda>team. \<lparr>team_id = t_id team, gs_points = 0\<rparr>) teamsData;
                  assignedTeam = 0 mod 4
              in if \<not> scoresOk then s1
                 else resetGame
                        (s1\<lparr>gameScores := scoreInserts, gameState := Playing,
                            teamsAttempted := [], currentWordIndex := 0,
                            currentTeam := assignedTeam,
                            originalTeamForQuestion := assignedTeam,
                            isPassedQuestion := False\<rparr>))))"

definition loadInitialData :: "Team list \<Rightarrow> GameWord list \<Rightarrow> int option \<Rightarrow> bool \<Rightarrow> hangman \<Rightarrow> hangman" where
  \<comment> \<open>\<open>teamsData\<close> and \<open>wordsData\<close> are the rows the two queries returned.\<close>
  "loadInitialData teamsData wordsData gameData scoresOk s =
     (if teamsData = [] then s
      else
        (let s1 = s\<lparr>teams := teamsData\<rparr> in
         if wordsData = [] then s1
         else autoStartGame teamsData wordsData gameData scoresOk (s1\<lparr>words := wordsData\<rparr>)))"

definition wordEffect :: "nat list \<Rightarrow> hangman \<Rightarrow> hangman \<Rightarrow> hangman option" where
  \<comment> \<open>The effect with the dependencies \<^verbatim>\<open>[currentWordIndex, currentGameWord]\<close>: after a
      change of the state from \<open>before\<close> to \<open>after\<close> it runs when one of the two differs.\<close>
  "wordEffect draws before after =
     (if currentWordIndex after = currentWordIndex before \<and>
         currentGameWord after = currentGameWord before
      then Some after
      else if currentGameWord after = None then Some after
      else generateDefaultRevealedPositions draws after after)"

definition typeLetter :: "string \<Rightarrow> game \<Rightarrow> game" where
  \<comment> \<open>\<^verbatim>\<open>onChange={(e) => setInputLetter(e.target.value.toUpperCase())}\<close>; the field has
      \<^verbatim>\<open>maxLength={1}\<close>.\<close>
  "typeLetter v g = setState (\<lambda>s. s\<lparr>inputLetter := toUpperCase v\<rparr>) g"

definition fire :: "nat list \<Rightarrow> nat \<Rightarrow> game \<Rightarrow> game option" where
  \<comment> \<open>The pending timer number \<open>i\<close> runs its callback and leaves the list.\<close>
  "fire draws i g =
     (if i < length (timers g) then
        (case timers g ! i of
           Timer delay cb c \<Rightarrow>
             (let g' = g\<lparr>timers := take i (timers g) @ drop (Suc i) (timers g)\<rparr> in
              case cb of
                PassQuestion \<Rightarrow> passQuestion c g'
              | NextWord \<Rightarrow>
                  (case wordEffect draws (live g') (nextWord c (live g')) of
                     None \<Rightarrow> None
                   | Some s \<Rightarrow> Some (g'\<lparr>live := s\<rparr>))))
      else Some g)"

datatype event = TypeLetter string | ClickGuess bool | ClickPass | TimerFires "nat list" nat

fun step :: "event \<Rightarrow> game \<Rightarrow> (error + game) option" where
  \<comment> \<open>The input field and the two buttons stand on the page only while
      \<^verbatim>\<open>gameState === "playing"\<close>; a timer fires in any state.\<close>
  "step (TypeLetter v) g =
     Some (Inr (if gameState (live g) = Playing then typeLetter v g else g))"
| "step (ClickGuess updateOk) g =
     Some (if gameState (live g) = Playing then guessLetter updateOk g else Inr g)"
| "step ClickPass g =
     (if gameState (live g) = Playing then map_option Inr (passQuestion (live g) g)
      else Some (Inr g))"
| "step (TimerFires draws i) g = map_option Inr (fire draws i g)"

fun run :: "event list \<Rightarrow> game \<Rightarrow> (error + game) option" where
  \<comment> \<open>The events one after the other, up to the first handler that throws or the
      first loop that does not end.\<close>
  "run [] g = Some (Inr g)"
| "run (e # es) g =
     (case step e g of
        Some (Inr g') \<Rightarrow> run es g'
      | r \<Rightarrow> r)"

definition teamPoints :: "hangman \<Rightarrow> int \<Rightarrow> int" where
  \<comment> \<open>\<^verbatim>\<open>gameScores.find((score) => score.team_id === team.id)?.points || 0\<close>\<close>
  "teamPoints s teamId =
     (case find (\<lambda>score. team_id score = teamId) (gameScores s) of
        None \<Rightarrow> 0
      | Some score \<Rightarrow> gs_points score)"

section \<open>Example data\<close>

text \<open>
  The four teams that the schema script (\<^verbatim>\<open>src/unnamed/part_001\<close>) inserts, three words,
  and the state of a game started on them; they are the concrete inputs of the
  evaluations below.
\<close>

definition exampleTeams :: "Team list" where
  "exampleTeams =
     [\<lparr>t_id = 1, t_name = ''Thunder Bolts'', t_color = ''bg-blue-500''\<rparr>,
      \<lparr>t_id = 2, t_name = ''Fire Dragons'', t_color = ''bg-red-500''\<rparr>,
      \<lparr>t_id = 3, t_name = ''Green Eagles'', t_color = ''bg-green-500''\<rparr>,
      \<lparr>t_id = 4, t_name = ''Golden Lions'', t_color = ''bg-yellow-500''\<rparr>]"

definition exampleWords :: "GameWord list" where
  "exampleWords =
     [\<lparr>w_id = 1, word = ''CAT'', points = 10\<rparr>,
      \<lparr>w_id = 2, word = ''BANANA'', points = 20\<rparr>,
      \<lparr>w_id = 3, word = ''BLACKSMITH'', points = 30\<rparr>]"

definition exampleStart :: game where
  "exampleStart =
     \<lparr>live = loadInitialData exampleTeams exampleWords (Some 1) True initialState,
      timers = []\<rparr>"

definition atWord :: "nat \<Rightarrow> hangman" where
  \<comment> \<open>The started game at the word number \<open>i\<close>, before its hint positions are drawn.\<close>
  "atWord i = (live exampleStart)\<lparr>currentWordIndex := i, currentTeam := i mod 4,
                                  originalTeamForQuestion := i mod 4\<rparr>"

definition lastTeamState :: hangman where
  \<comment> \<open>The first word after the teams 0, 1 and 2 have passed.\<close>
  "lastTeamState = (live exampleStart)\<lparr>teamsAttempted := [0, 1, 2], currentTeam := 3,
                       isPassedQuestion := True\<rparr>"

definition skippingState :: hangman where
  \<comment> \<open>Team 1 at the second word, with team 2 among the attempted teams already.\<close>
  "skippingState = (atWord 1)\<lparr>teamsAttempted := [2], defaultRevealedPositions := [4],
                       guessedLetters := [''B'', ''X''], revealedPositions := [0],
                       wrongGuesses := 1\<rparr>"

definition catTwoShown :: hangman where
  \<comment> \<open>The first word with C and A revealed and T typed.\<close>
  "catTwoShown = (live exampleStart)\<lparr>guessedLetters := [''C'', ''A''],
                     revealedPositions := [0, 1], inputLetter := ''T''\<rparr>"


definition bananaState :: hangman where
  \<comment> \<open>The second word with the hint position 1 (an A) and A typed.\<close>
  "bananaState = (atWord 1)\<lparr>defaultRevealedPositions := [1], inputLetter := ''A''\<rparr>"

definition bananaShown :: hangman where
  \<comment> \<open>The same after the other two A were revealed and three guesses were wrong.\<close>
  "bananaShown = (atWord 1)\<lparr>defaultRevealedPositions := [1], revealedPositions := [3, 5],
                     guessedLetters := [''A'', ''A''], wrongGuesses := 3, inputLetter := ''A''\<rparr>"

definition twoPending :: game where
  \<comment> \<open>Two wrong guesses in a row from there: two timers of \<^verbatim>\<open>passQuestion\<close> are pending.\<close>
  "twoPending =
     \<lparr>live = bananaShown\<lparr>guessedLetters := [''A'', ''A'', ''A'', ''A''], wrongGuesses := 5,
               inputLetter := []\<rparr>,
      timers = [Timer 2000 PassQuestion bananaShown,
                Timer 2000 PassQuestion
                  (bananaShown\<lparr>guessedLetters := [''A'', ''A'', ''A''], wrongGuesses := 4,
                     inputLetter := ''A''\<rparr>)]\<rparr>"

section \<open>Vocabulary of the statements\<close>

definition alphabetic :: "char \<Rightarrow> bool" where
  \<comment> \<open>The letters \<open>A\<close>..\<open>Z\<close> and \<open>a\<close>..\<open>z\<close>.\<close>
  "alphabetic ch =
     (let n = (of_char ch :: nat) in (65 \<le> n \<and> n \<le> 90) \<or> (97 \<le> n \<and> n \<le> 122))"

definition forgetInput :: "timer \<Rightarrow> timer" where
  \<comment> \<open>A pending timer without the \<^verbatim>\<open>inputLetter\<close> of the state its callback closed
      over; no callback reads that variable.\<close>
  "forgetInput t = (case t of Timer d cb c \<Rightarrow> Timer d cb (c\<lparr>inputLetter := []\<rparr>))"

definition passCall :: "event \<Rightarrow> game \<Rightarrow> hangman option" where
  \<comment> \<open>The state that the call of \<^verbatim>\<open>passQuestion\<close> made by an event reads: the live state
      for a click on Pass (the button is on the page while the state is \<open>Playing\<close>), the
      state its callback closed over for a timer of \<^verbatim>\<open>passQuestion\<close> that fires; \<open>None\<close>
      for an event that does not call \<^verbatim>\<open>passQuestion\<close>.\<close>
  "passCall e g =
     (case e of
        ClickPass \<Rightarrow> if gameState (live g) = Playing then Some (live g) else None
      | TimerFires draws i \<Rightarrow>
          if i < length (timers g) then
            (case timers g ! i of
               Timer d cb c \<Rightarrow> (case cb of PassQuestion \<Rightarrow> Some c | NextWord \<Rightarrow> None))
          else None
      | _ \<Rightarrow> None)"

definition pendingAfter :: "event \<Rightarrow> game \<Rightarrow> timer list" where
  \<comment> \<open>The timers that were pending before an event and still are after it: all but the
      one that fires.\<close>
  "pendingAfter e g =
     (case e of
        TimerFires draws i \<Rightarrow> take i (timers g) @ drop (Suc i) (timers g)
      | _ \<Rightarrow> timers g)"

definition passView :: "game \<Rightarrow> nat list \<times> nat \<times> gameState \<times> (callback \<times> nat list \<times> nat) list" where
  \<comment> \<open>The attempted teams, the current team and the state, and of each pending timer the
      callback with the attempted teams and the current team that it closed over.\<close>
  "passView g =
     (teamsAttempted (live g), currentTeam (live g), gameState (live g),
      map (\<lambda>t. case t of Timer d cb c \<Rightarrow> (cb, teamsAttempted c, currentTeam c)) (timers g))"


definition withoutInput :: "error + game \<Rightarrow> bool \<times> hangman \<times> timer list" where
  \<comment> \<open>Whether the handler threw, the live state and the pending timers after it, without
      the \<^verbatim>\<open>inputLetter\<close> inside the timers and, after a throw, without the one that is
      still in the field (a handler that returns has emptied it).\<close>
  "withoutInput r =
     (case r of
        Inl (TypeError g) \<Rightarrow> (True, (live g)\<lparr>inputLetter := []\<rparr>, map forgetInput (timers g))
      | Inr g \<Rightarrow> (False, live g, map forgetInput (timers g)))"

definition summary :: "game \<Rightarrow> nat \<times> gameState \<times> nat list \<times> (nat \<times> callback \<times> nat) list" where
  \<comment> \<open>The word index, the state, the revealed positions, and of each pending timer the
      delay, the callback and the word index its callback closed over.\<close>
  "summary g =
     (currentWordIndex (live g), gameState (live g), revealedPositions (live g),
      map (\<lambda>t. case t of Timer d cb c \<Rightarrow> (d, cb, currentWordIndex c)) (timers g))"

definition fiveWrong :: "event list" where
  \<comment> \<open>Five letters that are not in CAT, the fifth guessed before the timer of the fourth
      has fired.\<close>
  "fiveWrong = [TypeLetter ''x'', ClickGuess True, TypeLetter ''y'', ClickGuess True,
                TypeLetter ''z'', ClickGuess True, TypeLetter ''q'', ClickGuess True,
                TypeLetter ''w'', ClickGuess True]"

definition staleRun :: "event list" where
  \<comment> \<open>Three teams pass the first word; the fourth makes four wrong guesses and clicks Pass
      before the 2000 ms are over; the timer of the wrong guesses fires, then the
      next-word timer of the click; the second word begins and its B is guessed.\<close>
  "staleRun =
     [ClickPass, ClickPass, ClickPass,
      TypeLetter ''x'', ClickGuess True, TypeLetter ''y'', ClickGuess True,
      TypeLetter ''z'', ClickGuess True, TypeLetter ''q'', ClickGuess True,
      ClickPass, TimerFires [] 0, TimerFires [2] 0,
      TypeLetter ''b'', ClickGuess True]"

section \<open>The rounds a game can reach\<close>

definition startGame :: "Team list \<Rightarrow> GameWord list \<Rightarrow> int option \<Rightarrow> bool \<Rightarrow> nat list \<Rightarrow> game option" where
  \<comment> \<open>The component after its first load: the initial state, \<^verbatim>\<open>loadInitialData\<close>, and
      the word effect, which runs once the first word is there.\<close>
  "startGame teamsData wordsData gameData scoresOk draws =
     map_option (\<lambda>s. \<lparr>live = s, timers = []\<rparr>)
       (wordEffect draws initialState
          (loadInitialData teamsData wordsData gameData scoresOk initialState))"

definition shown :: "hangman \<Rightarrow> nat set" where
  \<comment> \<open>The positions that \<^verbatim>\<open>displayWord\<close> shows as letters.\<close>
  "shown s = set (revealedPositions s) \<union> set (defaultRevealedPositions s)"

definition liveInv :: "hangman \<Rightarrow> bool" where
  \<comment> \<open>No word is empty, the current team is one of 0..3, the positions shown lie inside
      the current word, the hint positions are at most \<open>numToReveal\<close> many, and a round
      that is \<open>Playing\<close> has a position that is not shown.\<close>
  "liveInv s \<longleftrightarrow>
     (\<forall>w \<in> set (words s). word w \<noteq> []) \<and>
     currentTeam s < 4 \<and>
     (\<forall>w. currentGameWord s = Some w \<longrightarrow>
          set (revealedPositions s) \<subseteq> {0..<length (word w)} \<and>
          set (defaultRevealedPositions s) \<subseteq> {0..<length (word w)} \<and>
          card (set (defaultRevealedPositions s)) \<le> numToReveal (length (word w)) \<and>
          (gameState s = Playing \<longrightarrow> \<not> {0..<length (word w)} \<subseteq> shown s))"

fun closureWords :: "timer \<Rightarrow> GameWord list" where
  "closureWords (Timer d cb c) = words c"

definition roundInv :: "game \<Rightarrow> bool" where
  \<comment> \<open>\<open>liveInv\<close> of the live state, and every pending callback closed over the same list
      of words.\<close>
  "roundInv g \<longleftrightarrow>
     liveInv (live g) \<and> (\<forall>t \<in> set (timers g). closureWords t = words (live g))"

definition drawsInRange :: "event \<Rightarrow> game \<Rightarrow> bool" where
  \<comment> \<open>The draws given to a firing next-word timer are below the length of the word its
      callback moves to, as the values of \<^verbatim>\<open>Math.floor(Math.random() * wordLength)\<close>
      are.\<close>
  "drawsInRange e g =
     (case e of
        TimerFires draws i \<Rightarrow>
          i < length (timers g) \<longrightarrow>
            (case timers g ! i of
               Timer d cb c \<Rightarrow>
                 (case cb of
                    PassQuestion \<Rightarrow> True
                  | NextWord \<Rightarrow>
                      (case currentGameWord (nextWord c (live g)) of
                         None \<Rightarrow> True
                       | Some w \<Rightarrow> \<forall>r \<in> set draws. r < length (word w))))
      | _ \<Rightarrow> True)"

fun drawsInRangeRun :: "event list \<Rightarrow> game \<Rightarrow> bool" where
  "drawsInRangeRun [] g = True"
| "drawsInRangeRun (e # es) g =
     (drawsInRange e g \<and>
      (case step e g of Some (Inr g') \<Rightarrow> drawsInRangeRun es g' | _ \<Rightarrow> True))"

definition scoreInv :: "int \<Rightarrow> Team list \<Rightarrow> hangman \<Rightarrow> bool" where
  \<comment> \<open>The game has its id, the loaded teams, and one score row for each of them, in
      their order.\<close>
  "scoreInv gid teamsData s \<longleftrightarrow>
     currentGameId s = Some gid \<and> teams s = teamsData \<and>
     map team_id (gameScores s) = map t_id teamsData"

section \<open>Auxiliary facts\<close>

lemma live_setState [simp]: "live (setState f g) = f (live g)"
  by (simp add: setState_def)

lemma timers_setState [simp]: "timers (setState f g) = timers g"
  by (simp add: setState_def)

lemma live_setTimeout [simp]: "live (setTimeout cb c d g) = live g"
  by (simp add: setTimeout_def)

lemma timers_setTimeout [simp]: "timers (setTimeout cb c d g) = timers g @ [Timer d cb c]"
  by (simp add: setTimeout_def)

lemma includes_str_single: "includes_str w [ch] \<longleftrightarrow> ch \<in> set w"
  by (induction w) auto

lemma toUpperCase_char_idem: "toUpperCase_char (toUpperCase_char ch) = toUpperCase_char ch"
  unfolding toUpperCase_char_def Let_def
  by (auto simp: of_char_of)

lemma letterPositions_enumerate:
  "map the (filter (\<lambda>pos. pos \<noteq> None)
          (map (\<lambda>(index, char). if [char] = letter then Some index else None)
               (enumerate n wordArray)))
   = [i \<leftarrow> [n..<n + length wordArray]. [wordArray ! (i - n)] = letter]"
proof (induction wordArray arbitrary: n)
  case Nil
  then show ?case by simp
next
  case (Cons a w)
  have upt: "[n..<n + length (a # w)] = n # [Suc n..<Suc n + length w]"
    by (simp add: upt_conv_Cons del: upt_Suc)
  have tl: "[i \<leftarrow> [Suc n..<Suc n + length w]. [(a # w) ! (i - n)] = letter]
           = [i \<leftarrow> [Suc n..<Suc n + length w]. [w ! (i - Suc n)] = letter]"
    by (rule filter_cong) (auto simp: nth_Cons')
  show ?case
    unfolding upt using Cons.IH [of "Suc n"] tl by simp
qed

lemma letterPositions_eq:
  "letterPositions w letter = [i \<leftarrow> [0..<length w]. [w ! i] = letter]"
  using letterPositions_enumerate [of letter 0 w] by (simp add: letterPositions_def)

lemma hd_sorted_Min:
  assumes "sorted xs" and "xs \<noteq> []"
  shows "hd xs = Min (set xs)"
proof -
  obtain y ys where xs: "xs = y # ys" using assms(2) by (cases xs) auto
  have "Min (set xs) = y"
    by (rule Min_eqI) (use assms(1) xs in auto)
  then show ?thesis by (simp add: xs)
qed

lemma hd_filter_upt_Min:
  assumes "[i \<leftarrow> [0..<n]. P i] \<noteq> []"
  shows "hd [i \<leftarrow> [0..<n]. P i] = Min {i. i < n \<and> P i}"
proof -
  have "sorted [i \<leftarrow> [0..<n]. P i]" by (simp add: sorted_wrt_filter)
  then have "hd [i \<leftarrow> [0..<n]. P i] = Min (set [i \<leftarrow> [0..<n]. P i])"
    using assms by (rule hd_sorted_Min)
  moreover have "set [i \<leftarrow> [0..<n]. P i] = {i. i < n \<and> P i}" by auto
  ultimately show ?thesis by simp
qed


subsection \<open>pickPositions\<close>

lemma pickPositions_Some:
  assumes "pickPositions n ps draws = Some qs"
    and "length ps \<le> n" and "distinct ps"
    and "\<forall>p \<in> set ps. p < L" and "\<forall>r \<in> set draws. r < L"
  shows "length qs = n \<and> distinct qs \<and> (\<forall>p \<in> set qs. p < L)"
  using assms
proof (induction draws arbitrary: ps)
  case Nil
  then show ?case by (auto split: if_splits)
next
  case (Cons r draws)
  show ?case
  proof (cases "length ps < n")
    case False
    with Cons.prems show ?thesis by auto
  next
    case True
    show ?thesis
    proof (cases "r \<in> set ps")
      case True
      with \<open>length ps < n\<close> Cons.prems have "pickPositions n ps draws = Some qs" by simp
      from Cons.IH [OF this] Cons.prems show ?thesis by auto
    next
      case False
      with \<open>length ps < n\<close> Cons.prems have "pickPositions n (ps @ [r]) draws = Some qs" by simp
      from Cons.IH [OF this] Cons.prems False \<open>length ps < n\<close> show ?thesis by auto
    qed
  qed
qed




lemma live_exampleStart:
  "live exampleStart =
     \<lparr>teams = exampleTeams, words = exampleWords,
      gameScores = [\<lparr>team_id = 1, gs_points = 0\<rparr>, \<lparr>team_id = 2, gs_points = 0\<rparr>,
                    \<lparr>team_id = 3, gs_points = 0\<rparr>, \<lparr>team_id = 4, gs_points = 0\<rparr>],
      currentGameId = Some 1, currentWordIndex = 0, currentTeam = 0,
      originalTeamForQuestion = 0, guessedLetters = [], revealedPositions = [],
      defaultRevealedPositions = [], wrongGuesses = 0, gameState = Playing,
      inputLetter = [], teamsAttempted = [], isPassedQuestion = False\<rparr>"
  by (simp add: exampleStart_def loadInitialData_def autoStartGame_def initialState_def
      resetGame_def exampleTeams_def exampleWords_def)


section \<open>The hint positions of a word\<close>




section \<open>Passing a word\<close>

lemma findNextTeam_skip:
  assumes "\<forall>j<k. (n + j) mod 4 \<in> set att" and "n < 4"
  shows "findNextTeam att n = findNextTeam att ((n + k) mod 4)"
  using assms(1)
proof (induction k)
  case 0
  then show ?case using assms(2) by simp
next
  case (Suc k)
  then have "findNextTeam att n = findNextTeam att ((n + k) mod 4)" by simp
  also have "(n + k) mod 4 \<in> set att" using Suc.prems by simp
  then have "findNextTeam att ((n + k) mod 4) = findNextTeam att (((n + k) mod 4 + 1) mod 4)"
    by (subst findNextTeam.simps) simp
  also have "((n + k) mod 4 + 1) mod 4 = (n + Suc k) mod 4"
    by (simp add: mod_Suc_eq)
  finally show ?case .
qed

lemma free_team_exists:
  fixes att :: "nat list" and n :: nat
  assumes "length att < 4"
  shows "\<exists>k<4. (n + k) mod 4 \<notin> set att"
proof (rule ccontr)
  assume "\<not> ?thesis"
  then have all: "\<forall>k<4. (n + k) mod 4 \<in> set att" by simp
  have inj: "inj_on (\<lambda>k. (n + k) mod 4) {..<4}"
  proof (rule inj_onI)
    fix x y assume "x \<in> {..<4::nat}" "y \<in> {..<4::nat}" "(n + x) mod 4 = (n + y) mod 4"
    then show "x = y" by (simp add: mod_eq_iff_dvd_symdiff_nat) presburger
  qed
  have "(\<lambda>k. (n + k) mod 4) ` {..<4} \<subseteq> set att" using all by auto
  then have "card ((\<lambda>k. (n + k) mod 4) ` {..<4}) \<le> card (set att)"
    by (intro card_mono) auto
  then have "4 \<le> card (set att)" by (simp add: card_image [OF inj])
  moreover have "card (set att) \<le> length att" by (rule card_length)
  ultimately show False using assms(1) by simp
qed

lemma findNextTeam_returns:
  assumes "length att < 4" and "n < 4"
  shows "\<exists>k<4. findNextTeam att n = Some ((n + k) mod 4) \<and> (n + k) mod 4 \<notin> set att \<and>
               (\<forall>j<k. (n + j) mod 4 \<in> set att)"
proof -
  define k where "k = (LEAST k. (n + k) mod 4 \<notin> set att)"
  from free_team_exists [OF assms(1)] obtain k0 where k0: "k0 < 4" "(n + k0) mod 4 \<notin> set att"
    by blast
  have free: "(n + k) mod 4 \<notin> set att"
    unfolding k_def using k0(2) by (rule LeastI)
  have "k \<le> k0" unfolding k_def using k0(2) by (rule Least_le)
  then have "k < 4" using k0(1) by simp
  have before: "\<forall>j<k. (n + j) mod 4 \<in> set att"
    unfolding k_def using not_less_Least by blast
  have "findNextTeam att n = findNextTeam att ((n + k) mod 4)"
    using before assms(2) by (rule findNextTeam_skip)
  also have "\<dots> = Some ((n + k) mod 4)"
    using free by (subst findNextTeam.simps) simp
  finally show ?thesis using \<open>k < 4\<close> free before by blast
qed

lemma nextWord_advance:
  assumes "currentWordIndex c + 1 < length (words c)"
  shows "nextWord c s =
           s\<lparr>currentWordIndex := currentWordIndex c + 1,
             currentTeam := (currentWordIndex c + 1) mod 4,
             originalTeamForQuestion := (currentWordIndex c + 1) mod 4,
             guessedLetters := [], revealedPositions := [], wrongGuesses := 0,
             gameState := Playing, inputLetter := [], teamsAttempted := [],
             isPassedQuestion := False\<rparr>"
  using assms by (simp add: nextWord_def resetGame_def Let_def)

lemma nextWord_finish:
  assumes "\<not> currentWordIndex c + 1 < length (words c)"
  shows "nextWord c s = s\<lparr>gameState := Finished\<rparr>"
  using assms by (simp add: nextWord_def)

lemma passQuestion_lost:
  assumes "4 \<le> length (teamsAttempted c) + 1"
  shows "passQuestion c g =
           Some \<lparr>live = (live g)\<lparr>teamsAttempted := teamsAttempted c @ [currentTeam c],
                                  gameState := Lost\<rparr>,
                 timers = timers g @ [Timer 3000 NextWord c]\<rparr>"
  using assms
  by (simp add: passQuestion_def nextTeamOrWord_def Let_def setState_def setTimeout_def)

lemma passQuestion_next_team:
  assumes "length (teamsAttempted c) + 1 < 4"
  shows "\<exists>k<4. passQuestion c g =
           Some \<lparr>live = (live g)\<lparr>teamsAttempted := teamsAttempted c @ [currentTeam c],
                     currentTeam := (currentTeam c + 1 + k) mod 4, isPassedQuestion := True,
                     guessedLetters := [], revealedPositions := [], wrongGuesses := 0,
                     gameState := Playing, inputLetter := []\<rparr>,
                 timers = timers g\<rparr> \<and>
           (currentTeam c + 1 + k) mod 4 \<notin> set (teamsAttempted c @ [currentTeam c]) \<and>
           (\<forall>j<k. (currentTeam c + 1 + j) mod 4 \<in> set (teamsAttempted c @ [currentTeam c]))"
proof -
  let ?att = "teamsAttempted c @ [currentTeam c]"
  let ?n = "(currentTeam c + 1) mod 4"
  have "length ?att < 4" using assms by simp
  moreover have "?n < 4" by simp
  ultimately obtain k where k: "k < 4" "findNextTeam ?att ?n = Some ((?n + k) mod 4)"
    "(?n + k) mod 4 \<notin> set ?att" "\<forall>j<k. (?n + j) mod 4 \<in> set ?att"
    using findNextTeam_returns by blast
  have eq: "\<And>j. (?n + j) mod 4 = (currentTeam c + 1 + j) mod 4"
    by (simp add: mod_add_left_eq)
  have "passQuestion c g =
      Some (setState resetGame
             (setState (\<lambda>s. s\<lparr>currentTeam := (?n + k) mod 4, isPassedQuestion := True\<rparr>)
                (setState (\<lambda>s. s\<lparr>teamsAttempted := ?att\<rparr>) g)))"
    using assms k(2) by (simp add: passQuestion_def nextTeamOrWord_def Let_def)
  then have "passQuestion c g =
           Some \<lparr>live = (live g)\<lparr>teamsAttempted := ?att,
                     currentTeam := (?n + k) mod 4, isPassedQuestion := True,
                     guessedLetters := [], revealedPositions := [], wrongGuesses := 0,
                     gameState := Playing, inputLetter := []\<rparr>,
                 timers = timers g\<rparr>"
    by (simp add: setState_def resetGame_def)
  with k(1,3,4) show ?thesis unfolding eq by blast
qed


lemma wordEffect_same_word:
  assumes "currentWordIndex after = currentWordIndex before" and "words after = words before"
  shows "wordEffect draws before after = Some after"
  using assms by (simp add: wordEffect_def currentGameWord_def)

lemma fire_last_NextWord:
  assumes "timers g' = ts @ [Timer d NextWord c]"
  shows "fire draws (length ts) g' =
           map_option (\<lambda>s. \<lparr>live = s, timers = ts\<rparr>)
             (wordEffect draws (live g') (nextWord c (live g')))"
  using assms by (cases g') (simp add: fire_def split: option.splits)



lemma passCall_step:
  assumes "passCall e g = Some c"
  shows "step e g = map_option Inr (passQuestion c (g\<lparr>timers := pendingAfter e g\<rparr>))"
    and "e = ClickPass \<longrightarrow> c = live g"
proof -
  have "step e g = map_option Inr (passQuestion c (g\<lparr>timers := pendingAfter e g\<rparr>)) \<and>
        (e = ClickPass \<longrightarrow> c = live g)"
  proof (cases e)
    case (TypeLetter v)
    with assms show ?thesis by (simp add: passCall_def)
  next
    case (ClickGuess u)
    with assms show ?thesis by (simp add: passCall_def)
  next
    case ClickPass
    with assms have "gameState (live g) = Playing" "c = live g"
      by (auto simp: passCall_def split: if_splits)
    then show ?thesis using ClickPass by (simp add: pendingAfter_def)
  next
    case (TimerFires draws i)
    with assms have i: "i < length (timers g)"
      by (auto simp: passCall_def split: if_splits)
    obtain d cb c' where t: "timers g ! i = Timer d cb c'" by (cases "timers g ! i") auto
    with assms TimerFires i have "cb = PassQuestion" "c' = c"
      by (auto simp: passCall_def split: callback.splits)
    with t i show ?thesis using TimerFires by (simp add: fire_def pendingAfter_def)
  qed
  then show "step e g = map_option Inr (passQuestion c (g\<lparr>timers := pendingAfter e g\<rparr>))"
    and "e = ClickPass \<longrightarrow> c = live g"
    by simp_all
qed

lemma twoPending_reached:
  "run [ClickGuess True, TypeLetter ''a'', ClickGuess True] \<lparr>live = bananaShown, timers = []\<rparr>
     = Some (Inr twoPending)"
  by code_simp

lemma step_twoPending:
  "step (TimerFires [] 0) twoPending =
     Some (Inr \<lparr>live = (live twoPending)\<lparr>teamsAttempted := [1], currentTeam := 2,
                   isPassedQuestion := True, guessedLetters := [], revealedPositions := [],
                   wrongGuesses := 0\<rparr>,
               timers = [timers twoPending ! 1]\<rparr>)"
  by code_simp

lemma run_lastTeamState:
  "run [ClickPass, ClickPass, ClickPass] exampleStart = Some (Inr \<lparr>live = lastTeamState, timers = []\<rparr>)"
  by code_simp




text \<open>
  C3, as the code has it. On CAT the first team makes five wrong guesses in a row, the
  fifth before the timer of the fourth has fired, so that two timers of
  \<^verbatim>\<open>passQuestion\<close> are pending. The first passes the word to team 1. When the second
  fires, team 0 is the only attempted team and team 1 is the current team; the first
  index that is not attempted, going round from (1 + 1) mod 4 once team 1 is added, is
  2. But the callback reads the team 0 and the empty list: the attempted teams are
  \<open>[0]\<close> after it and the current team is 1 again.
\<close>

theorem stale_pass_team_counterexample:
  "map_option (map_sum id passView) (run (fiveWrong @ [TimerFires [] 0]) exampleStart)
     = Some (Inr ([0], 1, Playing, [(PassQuestion, [], 0)])) \<and>
   length ([0] @ [1::nat]) < 4 \<and> findNextTeam ([0] @ [1]) ((1 + 1) mod 4) = Some 2 \<and>
   map_option (map_sum id passView)
       (run (fiveWrong @ [TimerFires [] 0, TimerFires [] 0]) exampleStart)
     = Some (Inr ([0], 1, Playing, []))"
  unfolding fiveWrong_def by code_simp

text \<open>
  C3, amended. When fewer than 4 teams have attempted the word after the call of
  \<^verbatim>\<open>passQuestion\<close> (by a click or by a timer) has added the current team, both as the
  call reads them, the step returns; the new current team is the first index, going
  round from (the current team that the call reads + 1) mod 4, that is not among the
  attempted teams; \<^verbatim>\<open>isPassedQuestion\<close> is true; the guessed letters, the revealed
  positions and the wrong guesses are reset and the state is \<open>Playing\<close>;
  \<^verbatim>\<open>defaultRevealedPositions\<close> and the word are unchanged, the word effect does not run,
  and no timer is scheduled. A click reads the live state, so for it these are the live
  current team and the live list.
\<close>

theorem passQuestion_next_team_spec:
  assumes "passCall e g = Some c" and "length (teamsAttempted c) + 1 < 4"
  shows "\<exists>g' k. step e g = Some (Inr g') \<and>
           (e = ClickPass \<longrightarrow> c = live g) \<and>
           teamsAttempted (live g') = teamsAttempted c @ [currentTeam c] \<and>
           k < 4 \<and> currentTeam (live g') = (currentTeam c + 1 + k) mod 4 \<and>
           currentTeam (live g') \<notin> set (teamsAttempted (live g')) \<and>
           (\<forall>j<k. (currentTeam c + 1 + j) mod 4 \<in> set (teamsAttempted (live g'))) \<and>
           isPassedQuestion (live g') \<and>
           guessedLetters (live g') = [] \<and> revealedPositions (live g') = [] \<and>
           wrongGuesses (live g') = 0 \<and> gameState (live g') = Playing \<and>
           defaultRevealedPositions (live g') = defaultRevealedPositions (live g) \<and>
           currentWordIndex (live g') = currentWordIndex (live g) \<and>
           wordEffect draws (live g) (live g') = Some (live g') \<and>
           timers g' = pendingAfter e g"
proof -
  let ?g = "g\<lparr>timers := pendingAfter e g\<rparr>"
  note s = passCall_step [OF assms(1)]
  from passQuestion_next_team [OF assms(2), of ?g] obtain k where k: "k < 4"
    "passQuestion c ?g =
           Some \<lparr>live = (live ?g)\<lparr>teamsAttempted := teamsAttempted c @ [currentTeam c],
                     currentTeam := (currentTeam c + 1 + k) mod 4, isPassedQuestion := True,
                     guessedLetters := [], revealedPositions := [], wrongGuesses := 0,
                     gameState := Playing, inputLetter := []\<rparr>,
                 timers = timers ?g\<rparr>"
    "(currentTeam c + 1 + k) mod 4 \<notin> set (teamsAttempted c @ [currentTeam c])"
    "\<forall>j<k. (currentTeam c + 1 + j) mod 4 \<in> set (teamsAttempted c @ [currentTeam c])"
    by blast
  let ?g' = "\<lparr>live = (live g)\<lparr>teamsAttempted := teamsAttempted c @ [currentTeam c],
                     currentTeam := (currentTeam c + 1 + k) mod 4, isPassedQuestion := True,
                     guessedLetters := [], revealedPositions := [], wrongGuesses := 0,
                     gameState := Playing, inputLetter := []\<rparr>,
                 timers = pendingAfter e g\<rparr>"
  have p: "step e g = Some (Inr ?g')" using k(2) by (simp add: s(1))
  have e: "wordEffect draws (live g) (live ?g') = Some (live ?g')"
    by (rule wordEffect_same_word) simp_all
  show ?thesis
    apply (rule exI [of _ ?g'])
    apply (rule exI [of _ k])
    using k(1,3,4) p e s(2) by simp
qed

theorem passQuestion_next_team_spec_witness:
  "passCall ClickPass \<lparr>live = skippingState, timers = []\<rparr> = Some skippingState \<and>
   length (teamsAttempted skippingState) + 1 < 4 \<and>
   currentTeam skippingState = 1 \<and> teamsAttempted skippingState = [2] \<and>
   step ClickPass \<lparr>live = skippingState, timers = []\<rparr> =
     Some (Inr \<lparr>live = skippingState\<lparr>teamsAttempted := [2, 1], currentTeam := 3,
               isPassedQuestion := True, guessedLetters := [], revealedPositions := [],
               wrongGuesses := 0\<rparr>, timers = []\<rparr>) \<and>
   defaultRevealedPositions skippingState = [4] \<and>
   passCall (TimerFires [] 0) twoPending = Some bananaShown \<and>
   length (teamsAttempted bananaShown) + 1 < 4 \<and> currentTeam bananaShown = 1 \<and>
   (\<exists>g'. step (TimerFires [] 0) twoPending = Some (Inr g') \<and>
         teamsAttempted (live g') = [1] \<and> currentTeam (live g') = 2 \<and>
         isPassedQuestion (live g') \<and> timers g' = [timers twoPending ! 1])"
proof -
  let ?g = "\<lparr>live = skippingState, timers = []\<rparr>"
  have l: "length (teamsAttempted skippingState) + 1 < 4"
    by (simp add: skippingState_def)
  have t: "currentTeam skippingState = 1" "teamsAttempted skippingState = [2]"
    "defaultRevealedPositions skippingState = [4]" "gameState skippingState = Playing"
    "inputLetter skippingState = []"
    by (simp_all add: skippingState_def atWord_def live_exampleStart)
  have h: "passCall ClickPass ?g = Some skippingState"
    by (simp add: passCall_def t)
  from passQuestion_next_team_spec [OF h l, of "[]"]
  obtain g' k where g': "step ClickPass ?g = Some (Inr g')"
    "k < 4" "currentTeam (live g') = (currentTeam skippingState + 1 + k) mod 4"
    "currentTeam (live g') \<notin> set (teamsAttempted (live g'))"
    "teamsAttempted (live g') = teamsAttempted skippingState @ [currentTeam skippingState]"
    by (elim exE conjE)
  have "step ClickPass ?g =
     Some (Inr \<lparr>live = skippingState\<lparr>teamsAttempted := [2, 1], currentTeam := 3,
               isPassedQuestion := True, guessedLetters := [], revealedPositions := [],
               wrongGuesses := 0\<rparr>, timers = []\<rparr>)"
    by (simp add: passQuestion_def nextTeamOrWord_def findNextTeam.simps t setState_def
        resetGame_def)
  note click = this
  have b: "teamsAttempted bananaShown = []" "currentTeam bananaShown = 1"
    by (simp_all add: bananaShown_def atWord_def live_exampleStart)
  have h2: "passCall (TimerFires [] 0) twoPending = Some bananaShown"
    by (simp add: passCall_def twoPending_def)
  have l2: "length (teamsAttempted bananaShown) + 1 < 4" by (simp add: b)
  from passQuestion_next_team_spec [OF h2 l2, of "[]"]
  obtain g2 k2 where g2: "step (TimerFires [] 0) twoPending = Some (Inr g2)"
    "teamsAttempted (live g2) = teamsAttempted bananaShown @ [currentTeam bananaShown]"
    "isPassedQuestion (live g2)" "timers g2 = pendingAfter (TimerFires [] 0) twoPending"
    by (elim exE conjE)
  from g2(1) step_twoPending have "currentTeam (live g2) = 2" by auto
  with g2 have timer: "\<exists>g'. step (TimerFires [] 0) twoPending = Some (Inr g') \<and>
         teamsAttempted (live g') = [1] \<and> currentTeam (live g') = 2 \<and>
         isPassedQuestion (live g') \<and> timers g' = [timers twoPending ! 1]"
    by (intro exI [of _ g2]) (simp add: b pendingAfter_def twoPending_def)
  from h l t click h2 l2 b timer show ?thesis by simp
qed

section \<open>Guessing a letter: the cases of \<^verbatim>\<open>guessLetter\<close>\<close>

lemma guessLetter_empty:
  assumes "inputLetter (live g) = []"
  shows "guessLetter updateOk g = Inr g"
  using assms by (simp add: guessLetter_def)

lemma guessLetter_wrong:
  assumes "inputLetter (live g) \<noteq> []" and "currentGameWord (live g) = Some w"
    and "\<not> includes_str (word w) (toUpperCase (inputLetter (live g))) \<or>
         unrevealedPositions (live g) (word w) (toUpperCase (inputLetter (live g))) = []"
  shows "guessLetter updateOk g =
           Inr \<lparr>live = (live g)\<lparr>guessedLetters :=
                                   guessedLetters (live g) @ [toUpperCase (inputLetter (live g))],
                                 wrongGuesses := wrongGuesses (live g) + 1,
                                 inputLetter := []\<rparr>,
                timers = (if maxWrongGuesses \<le> wrongGuesses (live g) + 1
                          then timers g @ [Timer 2000 PassQuestion (live g)] else timers g)\<rparr>"
  using assms
  by (auto simp: guessLetter_def Let_def countWrongGuess_def setState_def setTimeout_def)

lemma guessLetter_reveal:
  assumes "inputLetter (live g) \<noteq> []" and "currentGameWord (live g) = Some w"
    and "includes_str (word w) (toUpperCase (inputLetter (live g)))"
    and "unrevealedPositions (live g) (word w) (toUpperCase (inputLetter (live g))) = p # ps"
    and "length (remdups ((revealedPositions (live g) @ [p]) @ defaultRevealedPositions (live g)))
         \<noteq> length (word w)"
  shows "guessLetter updateOk g =
           Inr \<lparr>live = (live g)\<lparr>guessedLetters :=
                                   guessedLetters (live g) @ [toUpperCase (inputLetter (live g))],
                                 revealedPositions := revealedPositions (live g) @ [p],
                                 inputLetter := []\<rparr>,
                timers = timers g\<rparr>"
  using assms
  by (simp add: guessLetter_def Let_def setState_def)

lemma guessLetter_win:
  assumes "inputLetter (live g) \<noteq> []" and "currentGameWord (live g) = Some w"
    and "includes_str (word w) (toUpperCase (inputLetter (live g)))"
    and "unrevealedPositions (live g) (word w) (toUpperCase (inputLetter (live g))) = p # ps"
    and "length (remdups ((revealedPositions (live g) @ [p]) @ defaultRevealedPositions (live g)))
         = length (word w)"
    and "currentTeam (live g) < length (teams (live g))"
  shows "guessLetter updateOk g =
           Inr (setState (\<lambda>s. s\<lparr>inputLetter := []\<rparr>)
                 (setTimeout NextWord (live g) 2000
                   (updateGameScore updateOk (live g) (t_id (teams (live g) ! currentTeam (live g)))
                      (if isPassedQuestion (live g) then 5 else points w)
                      \<lparr>live = (live g)\<lparr>guessedLetters :=
                                   guessedLetters (live g) @ [toUpperCase (inputLetter (live g))],
                                 revealedPositions := revealedPositions (live g) @ [p],
                                 gameState := Won\<rparr>,
                       timers = timers g\<rparr>)))"
  using assms
  by (cases g) (simp add: guessLetter_def Let_def setState_def)

lemma guessLetter_no_word:
  assumes "inputLetter (live g) \<noteq> []" and "currentGameWord (live g) = None"
  shows "guessLetter updateOk g =
           Inl (TypeError \<lparr>live = (live g)\<lparr>guessedLetters :=
                                   guessedLetters (live g) @ [toUpperCase (inputLetter (live g))]\<rparr>,
                           timers = timers g\<rparr>)"
  using assms by (cases g) (simp add: guessLetter_def Let_def setState_def)

lemma guessLetter_no_team:
  assumes "inputLetter (live g) \<noteq> []" and "currentGameWord (live g) = Some w"
    and "includes_str (word w) (toUpperCase (inputLetter (live g)))"
    and "unrevealedPositions (live g) (word w) (toUpperCase (inputLetter (live g))) = p # ps"
    and "length (remdups ((revealedPositions (live g) @ [p]) @ defaultRevealedPositions (live g)))
         = length (word w)"
    and "\<not> currentTeam (live g) < length (teams (live g))"
  shows "guessLetter updateOk g =
           Inl (TypeError \<lparr>live = (live g)\<lparr>guessedLetters :=
                                   guessedLetters (live g) @ [toUpperCase (inputLetter (live g))],
                                 revealedPositions := revealedPositions (live g) @ [p],
                                 gameState := Won\<rparr>,
                           timers = timers g\<rparr>)"
  using assms by (cases g) (simp add: guessLetter_def Let_def setState_def)

lemma updateGameScore_shape:
  "\<exists>gs. updateGameScore updateOk c teamId pts g = g\<lparr>live := (live g)\<lparr>gameScores := gs\<rparr>\<rparr>"
proof (cases "(currentGameId c = None \<or> currentGameId c = Some 0) \<or> \<not> updateOk")
  case True
  then have "updateGameScore updateOk c teamId pts g = g"
    by (auto simp: updateGameScore_def Let_def)
  then have "updateGameScore updateOk c teamId pts g = g\<lparr>live := (live g)\<lparr>gameScores := gameScores (live g)\<rparr>\<rparr>"
    by simp
  then show ?thesis ..
next
  case False
  then show ?thesis
    by (auto simp: updateGameScore_def Let_def setState_def)
qed




lemma set_letterPositions: "set (letterPositions w letter) \<subseteq> {0..<length w}"
  by (auto simp: letterPositions_eq)

lemma set_unrevealedPositions:
  "set (unrevealedPositions c w letter) \<subseteq> {0..<length w}"
  using set_letterPositions [of w letter] by (auto simp: unrevealedPositions_def)

lemma covered_iff_card:
  assumes "A \<subseteq> {0..<n::nat}"
  shows "card A = n \<longleftrightarrow> {0..<n} \<subseteq> A"
proof
  assume "card A = n"
  then have "card A = card {0..<n}" by simp
  with assms have "A = {0..<n}" by (intro card_subset_eq) auto
  then show "{0..<n} \<subseteq> A" by simp
next
  assume "{0..<n} \<subseteq> A"
  with assms have "A = {0..<n}" by auto
  then show "card A = n" by simp
qed

lemma guessLetter_outcome:
  assumes "guessLetter updateOk g = Inr g'"
  obtains (empty) "inputLetter (live g) = []" and "g' = g"
  | (wrong) "inputLetter (live g) \<noteq> []" and
      "g' = \<lparr>live = (live g)\<lparr>guessedLetters :=
                                   guessedLetters (live g) @ [toUpperCase (inputLetter (live g))],
                                 wrongGuesses := wrongGuesses (live g) + 1,
                                 inputLetter := []\<rparr>,
              timers = (if maxWrongGuesses \<le> wrongGuesses (live g) + 1
                        then timers g @ [Timer 2000 PassQuestion (live g)] else timers g)\<rparr>"
  | (reveal) w p where "currentGameWord (live g) = Some w" and "p < length (word w)" and
      "card (set (revealedPositions (live g) @ [p]) \<union> set (defaultRevealedPositions (live g)))
         \<noteq> length (word w)" and
      "g' = \<lparr>live = (live g)\<lparr>guessedLetters :=
                                   guessedLetters (live g) @ [toUpperCase (inputLetter (live g))],
                                 revealedPositions := revealedPositions (live g) @ [p],
                                 inputLetter := []\<rparr>,
              timers = timers g\<rparr>"
  | (win) w p gs where "currentGameWord (live g) = Some w" and "p < length (word w)" and
      "card (set (revealedPositions (live g) @ [p]) \<union> set (defaultRevealedPositions (live g)))
         = length (word w)" and
      "g' = \<lparr>live = (live g)\<lparr>guessedLetters :=
                                   guessedLetters (live g) @ [toUpperCase (inputLetter (live g))],
                                 revealedPositions := revealedPositions (live g) @ [p],
                                 gameState := Won, gameScores := gs, inputLetter := []\<rparr>,
              timers = timers g @ [Timer 2000 NextWord (live g)]\<rparr>"
proof (cases "inputLetter (live g) = []")
  case True
  with assms have "g' = g" by (simp add: guessLetter_empty)
  with True show ?thesis by (rule empty)
next
  case ne: False
  show ?thesis
  proof (cases "currentGameWord (live g)")
    case None
    with assms ne show ?thesis by (simp add: guessLetter_no_word)
  next
    case (Some w)
    let ?L = "toUpperCase (inputLetter (live g))"
    show ?thesis
    proof (cases "\<not> includes_str (word w) ?L \<or> unrevealedPositions (live g) (word w) ?L = []")
      case True
      from guessLetter_wrong [OF ne Some True, of updateOk] assms ne show ?thesis
        by (intro wrong) auto
    next
      case False
      then have inc: "includes_str (word w) ?L" by simp
      from False obtain p ps where U: "unrevealedPositions (live g) (word w) ?L = p # ps"
        by (cases "unrevealedPositions (live g) (word w) ?L") auto
      have "p \<in> set (unrevealedPositions (live g) (word w) ?L)" using U by simp
      then have p: "p < length (word w)"
        using set_unrevealedPositions [of "live g" "word w" ?L] by auto
      let ?A = "set (revealedPositions (live g) @ [p]) \<union> set (defaultRevealedPositions (live g))"
      have len: "length (remdups ((revealedPositions (live g) @ [p]) @
                   defaultRevealedPositions (live g))) = card ?A"
        by (simp add: length_remdups_card_conv)
      show ?thesis
      proof (cases "card ?A = length (word w)")
        case False
        then have "length (remdups ((revealedPositions (live g) @ [p]) @
                   defaultRevealedPositions (live g))) \<noteq> length (word w)"
          using len by simp
        from guessLetter_reveal [OF ne Some inc U this, of updateOk] assms
        have "g' = \<lparr>live = (live g)\<lparr>guessedLetters := guessedLetters (live g) @ [?L],
                                 revealedPositions := revealedPositions (live g) @ [p],
                                 inputLetter := []\<rparr>,
              timers = timers g\<rparr>" by simp
        with Some p False show ?thesis by (rule reveal)
      next
        case True
        then have c: "length (remdups ((revealedPositions (live g) @ [p]) @
                   defaultRevealedPositions (live g))) = length (word w)"
          using len by simp
        show ?thesis
        proof (cases "currentTeam (live g) < length (teams (live g))")
          case False
          from guessLetter_no_team [OF ne Some inc U c False, of updateOk] assms
          show ?thesis by simp
        next
          case tm: True
          let ?g3 = "\<lparr>live = (live g)\<lparr>guessedLetters := guessedLetters (live g) @ [?L],
                                 revealedPositions := revealedPositions (live g) @ [p],
                                 gameState := Won\<rparr>,
                       timers = timers g\<rparr>"
          let ?tid = "t_id (teams (live g) ! currentTeam (live g))"
          let ?pts = "if isPassedQuestion (live g) then 5 else points w"
          obtain gs where g4: "updateGameScore updateOk (live g) ?tid ?pts ?g3
              = ?g3\<lparr>live := (live ?g3)\<lparr>gameScores := gs\<rparr>\<rparr>"
            using updateGameScore_shape by blast
          from guessLetter_win [OF ne Some inc U c tm, of updateOk] assms
          have "g' = \<lparr>live = (live g)\<lparr>guessedLetters := guessedLetters (live g) @ [?L],
                                 revealedPositions := revealedPositions (live g) @ [p],
                                 gameState := Won, gameScores := gs, inputLetter := []\<rparr>,
              timers = timers g @ [Timer 2000 NextWord (live g)]\<rparr>"
            unfolding g4 by (simp add: setState_def setTimeout_def)
          with Some p True show ?thesis by (rule win)
        qed
      qed
    qed
  qed
qed

lemma run_catTwoShown:
  "run [TypeLetter ''c'', ClickGuess True, TypeLetter ''a'', ClickGuess True, TypeLetter ''t'']
     exampleStart = Some (Inr \<lparr>live = catTwoShown, timers = []\<rparr>)"
  by code_simp


section \<open>Winning a word\<close>






section \<open>Revealing one position\<close>

lemma toUpperCase_single: "toUpperCase [ch] = [toUpperCase_char ch]"
  by (simp add: toUpperCase_def)

lemma unrevealedPositions_single:
  "unrevealedPositions c w [l] =
     [i \<leftarrow> [0..<length w]. w ! i = l \<and> i \<notin> set (revealedPositions c) \<and>
                             i \<notin> set (defaultRevealedPositions c)]"
  by (simp add: unrevealedPositions_def letterPositions_eq conj_commute conj_left_commute)

lemma updateGameScore_keeps [simp]:
  "timers (updateGameScore updateOk c teamId pts g) = timers g"
  "teams (live (updateGameScore updateOk c teamId pts g)) = teams (live g)"
  "words (live (updateGameScore updateOk c teamId pts g)) = words (live g)"
  "currentGameId (live (updateGameScore updateOk c teamId pts g)) = currentGameId (live g)"
  "currentWordIndex (live (updateGameScore updateOk c teamId pts g)) = currentWordIndex (live g)"
  "currentTeam (live (updateGameScore updateOk c teamId pts g)) = currentTeam (live g)"
  "originalTeamForQuestion (live (updateGameScore updateOk c teamId pts g)) = originalTeamForQuestion (live g)"
  "guessedLetters (live (updateGameScore updateOk c teamId pts g)) = guessedLetters (live g)"
  "revealedPositions (live (updateGameScore updateOk c teamId pts g)) = revealedPositions (live g)"
  "defaultRevealedPositions (live (updateGameScore updateOk c teamId pts g)) = defaultRevealedPositions (live g)"
  "wrongGuesses (live (updateGameScore updateOk c teamId pts g)) = wrongGuesses (live g)"
  "gameState (live (updateGameScore updateOk c teamId pts g)) = gameState (live g)"
  "inputLetter (live (updateGameScore updateOk c teamId pts g)) = inputLetter (live g)"
  "teamsAttempted (live (updateGameScore updateOk c teamId pts g)) = teamsAttempted (live g)"
  "isPassedQuestion (live (updateGameScore updateOk c teamId pts g)) = isPassedQuestion (live g)"
proof -
  obtain gs where "updateGameScore updateOk c teamId pts g = g\<lparr>live := (live g)\<lparr>gameScores := gs\<rparr>\<rparr>"
    using updateGameScore_shape by blast
  then show
    "timers (updateGameScore updateOk c teamId pts g) = timers g"
    "teams (live (updateGameScore updateOk c teamId pts g)) = teams (live g)"
    "words (live (updateGameScore updateOk c teamId pts g)) = words (live g)"
    "currentGameId (live (updateGameScore updateOk c teamId pts g)) = currentGameId (live g)"
    "currentWordIndex (live (updateGameScore updateOk c teamId pts g)) = currentWordIndex (live g)"
    "currentTeam (live (updateGameScore updateOk c teamId pts g)) = currentTeam (live g)"
    "originalTeamForQuestion (live (updateGameScore updateOk c teamId pts g)) = originalTeamForQuestion (live g)"
    "guessedLetters (live (updateGameScore updateOk c teamId pts g)) = guessedLetters (live g)"
    "revealedPositions (live (updateGameScore updateOk c teamId pts g)) = revealedPositions (live g)"
    "defaultRevealedPositions (live (updateGameScore updateOk c teamId pts g)) = defaultRevealedPositions (live g)"
    "wrongGuesses (live (updateGameScore updateOk c teamId pts g)) = wrongGuesses (live g)"
    "gameState (live (updateGameScore updateOk c teamId pts g)) = gameState (live g)"
    "inputLetter (live (updateGameScore updateOk c teamId pts g)) = inputLetter (live g)"
    "teamsAttempted (live (updateGameScore updateOk c teamId pts g)) = teamsAttempted (live g)"
    "isPassedQuestion (live (updateGameScore updateOk c teamId pts g)) = isPassedQuestion (live g)"
    by simp_all
qed

lemma guessLetter_bananaState:
  "guessLetter True \<lparr>live = bananaState, timers = []\<rparr> =
     Inr \<lparr>live = bananaState\<lparr>guessedLetters := [''A''], revealedPositions := [3],
               inputLetter := []\<rparr>, timers = []\<rparr>"
  by code_simp

lemma bananaState_fields:
  "gameState bananaState = Playing" "inputLetter bananaState = [CHR ''A'']"
  "currentGameWord bananaState = Some \<lparr>w_id = 2, word = ''BANANA'', points = 20\<rparr>"
  "currentTeam bananaState < length (teams bananaState)"
  "revealedPositions bananaState = []" "defaultRevealedPositions bananaState = [1]"
  by (simp_all add: bananaState_def atWord_def live_exampleStart currentGameWord_def
      exampleWords_def exampleTeams_def)

text \<open>
  C5. In a round that is \<open>Playing\<close>, when the guessed letter (the input in upper case)
  stands at some position of the word that is neither in \<^verbatim>\<open>revealedPositions\<close> nor in
  \<^verbatim>\<open>defaultRevealedPositions\<close>, \<^verbatim>\<open>guessLetter\<close> appends exactly one position to
  \<^verbatim>\<open>revealedPositions\<close>, the least such position, and changes neither the default
  positions nor the wrong guesses; the letter is appended to the guessed letters.
\<close>

theorem guessLetter_reveals_lowest:
  assumes "gameState (live g) = Playing"
    and "inputLetter (live g) = [ch]"
    and "currentGameWord (live g) = Some w"
    and "currentTeam (live g) < length (teams (live g))"
    and "\<exists>i < length (word w). word w ! i = toUpperCase_char ch \<and>
           i \<notin> set (revealedPositions (live g)) \<and>
           i \<notin> set (defaultRevealedPositions (live g))"
  shows "\<exists>g'. guessLetter updateOk g = Inr g' \<and>
           revealedPositions (live g') =
             revealedPositions (live g) @
               [Min {i. i < length (word w) \<and> word w ! i = toUpperCase_char ch \<and>
                        i \<notin> set (revealedPositions (live g)) \<and>
                        i \<notin> set (defaultRevealedPositions (live g))}] \<and>
           defaultRevealedPositions (live g') = defaultRevealedPositions (live g) \<and>
           guessedLetters (live g') = guessedLetters (live g) @ [[toUpperCase_char ch]] \<and>
           wrongGuesses (live g') = wrongGuesses (live g)"
proof -
  let ?c = "live g"
  let ?l = "toUpperCase_char ch"
  let ?P = "\<lambda>i. word w ! i = ?l \<and> i \<notin> set (revealedPositions ?c) \<and>
                 i \<notin> set (defaultRevealedPositions ?c)"
  let ?U = "unrevealedPositions ?c (word w) (toUpperCase (inputLetter ?c))"
  have letter: "toUpperCase (inputLetter ?c) = [?l]"
    by (simp add: assms(2) toUpperCase_single)
  have U: "?U = [i \<leftarrow> [0..<length (word w)]. ?P i]"
    unfolding letter by (rule unrevealedPositions_single)
  from assms(5) obtain i where i: "i < length (word w)" "?P i" by blast
  then have "i \<in> set [i \<leftarrow> [0..<length (word w)]. ?P i]" by simp
  then have ne: "[i \<leftarrow> [0..<length (word w)]. ?P i] \<noteq> []"
    by (metis empty_iff empty_set)
  then obtain p ps where pps: "?U = p # ps" unfolding U by (cases "[i \<leftarrow> [0..<length (word w)]. ?P i]") auto
  have "p = hd ?U" using pps by simp
  also have "\<dots> = Min {i. i < length (word w) \<and> ?P i}"
    unfolding U using ne by (rule hd_filter_upt_Min)
  finally have p: "p = Min {i. i < length (word w) \<and> ?P i}" .
  have inc: "includes_str (word w) (toUpperCase (inputLetter ?c))"
    unfolding letter includes_str_single using i nth_mem [of i "word w"] by auto
  have nonempty: "inputLetter ?c \<noteq> []" using assms(2) by simp
  show ?thesis
  proof (cases "length (remdups ((revealedPositions ?c @ [p]) @ defaultRevealedPositions ?c))
                  = length (word w)")
    case False
    from guessLetter_reveal [OF nonempty assms(3) inc pps False, of updateOk]
    show ?thesis unfolding letter p by simp
  next
    case True
    from guessLetter_win [OF nonempty assms(3) inc pps True assms(4), of updateOk]
    show ?thesis unfolding letter p by simp
  qed
qed


theorem guessLetter_reveals_lowest_witness:
  "gameState bananaState = Playing \<and> inputLetter bananaState = ''A'' \<and>
   currentGameWord bananaState = Some \<lparr>w_id = 2, word = ''BANANA'', points = 20\<rparr> \<and>
   currentTeam bananaState < length (teams bananaState) \<and>
   revealedPositions bananaState = [] \<and> defaultRevealedPositions bananaState = [1] \<and>
   ''BANANA'' ! 3 = toUpperCase_char CHR ''A'' \<and>
   guessLetter True \<lparr>live = bananaState, timers = []\<rparr> =
     Inr \<lparr>live = bananaState\<lparr>guessedLetters := [''A''], revealedPositions := [3],
               inputLetter := []\<rparr>, timers = []\<rparr> \<and>
   Min {i. i < length ''BANANA'' \<and> ''BANANA'' ! i = toUpperCase_char CHR ''A'' \<and>
           i \<notin> set [] \<and> i \<notin> set [1]} = 3"
proof -
  let ?w = "\<lparr>w_id = 2, word = ''BANANA'', points = 20\<rparr>"
  let ?g = "\<lparr>live = bananaState, timers = []\<rparr>"
  note f = bananaState_fields
  have up: "''BANANA'' ! 3 = toUpperCase_char CHR ''A''" by code_simp
  have h1: "gameState (live ?g) = Playing" and h2: "inputLetter (live ?g) = [CHR ''A'']"
    and h3: "currentGameWord (live ?g) = Some ?w"
    and h4: "currentTeam (live ?g) < length (teams (live ?g))"
    using f by simp_all
  have h5: "\<exists>i < length (word ?w). word ?w ! i = toUpperCase_char CHR ''A'' \<and>
           i \<notin> set (revealedPositions (live ?g)) \<and>
           i \<notin> set (defaultRevealedPositions (live ?g))"
    using up by (intro exI [of _ 3]) (simp add: f)
  from guessLetter_reveals_lowest [OF h1 h2 h3 h4 h5, of True]
  have "Min {i. i < length ''BANANA'' \<and> ''BANANA'' ! i = toUpperCase_char CHR ''A'' \<and>
           i \<notin> set [] \<and> i \<notin> set [1]} = 3"
    unfolding guessLetter_bananaState by (elim exE conjE) (simp add: f)
  with f up guessLetter_bananaState show ?thesis by simp
qed


section \<open>A letter whose occurrences are all shown\<close>

lemma unrevealedPositions_Nil_iff:
  "unrevealedPositions c w [l] = [] \<longleftrightarrow>
     (\<forall>i < length w. w ! i = l \<longrightarrow>
         i \<in> set (revealedPositions c) \<union> set (defaultRevealedPositions c))"
  by (auto simp: unrevealedPositions_single filter_empty_conv)

lemma bananaShown_fields:
  "gameState bananaShown = Playing" "inputLetter bananaShown = [CHR ''A'']"
  "currentGameWord bananaShown = Some \<lparr>w_id = 2, word = ''BANANA'', points = 20\<rparr>"
  "revealedPositions bananaShown = [3, 5]" "defaultRevealedPositions bananaShown = [1]"
  "wrongGuesses bananaShown = 3" "guessedLetters bananaShown = [''A'', ''A'']"
  by (simp_all add: bananaShown_def atWord_def live_exampleStart currentGameWord_def
      exampleWords_def)

lemma guessLetter_bananaShown:
  "guessLetter True \<lparr>live = bananaShown, timers = []\<rparr> =
     Inr \<lparr>live = bananaShown\<lparr>guessedLetters := [''A'', ''A'', ''A''], wrongGuesses := 4,
               inputLetter := []\<rparr>, timers = [Timer 2000 PassQuestion bananaShown]\<rparr>"
  by code_simp

text \<open>
  C6. In a round that is \<open>Playing\<close>, when the guessed letter occurs in the word and every
  position where it stands is in \<^verbatim>\<open>revealedPositions\<close> or in
  \<^verbatim>\<open>defaultRevealedPositions\<close>, \<^verbatim>\<open>guessLetter\<close> runs the block of a wrong guess:
  the wrong guesses grow by 1, and the \<^verbatim>\<open>passQuestion\<close> timer is scheduled when they
  reach \<open>maxWrongGuesses\<close>; the letter is appended to the guessed letters all the same;
  the revealed positions, the state and the scores do not change.
\<close>

theorem guessLetter_all_shown_counts_wrong:
  assumes "gameState (live g) = Playing"
    and "inputLetter (live g) = [ch]"
    and "currentGameWord (live g) = Some w"
    and "toUpperCase_char ch \<in> set (word w)"
    and "\<forall>i < length (word w). word w ! i = toUpperCase_char ch \<longrightarrow>
           i \<in> set (revealedPositions (live g)) \<union> set (defaultRevealedPositions (live g))"
  shows "\<exists>g'. guessLetter updateOk g = Inr g' \<and>
           g' = setState (\<lambda>s. s\<lparr>inputLetter := []\<rparr>)
                  (countWrongGuess (live g)
                     (setState (\<lambda>s. s\<lparr>guessedLetters :=
                                  guessedLetters (live g) @ [[toUpperCase_char ch]]\<rparr>) g)) \<and>
           wrongGuesses (live g') = wrongGuesses (live g) + 1 \<and>
           guessedLetters (live g') = guessedLetters (live g) @ [[toUpperCase_char ch]] \<and>
           revealedPositions (live g') = revealedPositions (live g) \<and>
           defaultRevealedPositions (live g') = defaultRevealedPositions (live g) \<and>
           gameState (live g') = Playing \<and>
           gameScores (live g') = gameScores (live g) \<and>
           timers g' = (if maxWrongGuesses \<le> wrongGuesses (live g) + 1
                        then timers g @ [Timer 2000 PassQuestion (live g)] else timers g)"
proof -
  have letter: "toUpperCase (inputLetter (live g)) = [toUpperCase_char ch]"
    by (simp add: assms(2) toUpperCase_single)
  have nonempty: "inputLetter (live g) \<noteq> []" using assms(2) by simp
  have "unrevealedPositions (live g) (word w) (toUpperCase (inputLetter (live g))) = []"
    unfolding letter unrevealedPositions_Nil_iff using assms(5) .
  then have "\<not> includes_str (word w) (toUpperCase (inputLetter (live g))) \<or>
         unrevealedPositions (live g) (word w) (toUpperCase (inputLetter (live g))) = []" ..
  from guessLetter_wrong [OF nonempty assms(3) this, of updateOk]
  show ?thesis
    unfolding letter using assms(1)
    by (cases g) (simp add: countWrongGuess_def setState_def setTimeout_def Let_def)
qed

theorem guessLetter_all_shown_counts_wrong_witness:
  "gameState bananaShown = Playing \<and> inputLetter bananaShown = ''A'' \<and>
   currentGameWord bananaShown = Some \<lparr>w_id = 2, word = ''BANANA'', points = 20\<rparr> \<and>
   toUpperCase_char CHR ''A'' \<in> set ''BANANA'' \<and>
   list_all (\<lambda>i. ''BANANA'' ! i = toUpperCase_char CHR ''A'' \<longrightarrow>
                  i \<in> set (revealedPositions bananaShown) \<union>
                      set (defaultRevealedPositions bananaShown)) [0..<length ''BANANA''] \<and>
   wrongGuesses bananaShown = 3 \<and>
   guessLetter True \<lparr>live = bananaShown, timers = []\<rparr> =
     Inr \<lparr>live = bananaShown\<lparr>guessedLetters := [''A'', ''A'', ''A''], wrongGuesses := 4,
               inputLetter := []\<rparr>, timers = [Timer 2000 PassQuestion bananaShown]\<rparr>"
proof -
  let ?w = "\<lparr>w_id = 2, word = ''BANANA'', points = 20\<rparr>"
  let ?g = "\<lparr>live = bananaShown, timers = []\<rparr>"
  note f = bananaShown_fields
  have up: "toUpperCase_char CHR ''A'' = CHR ''A''" by code_simp
  have all: "list_all (\<lambda>i. ''BANANA'' ! i = toUpperCase_char CHR ''A'' \<longrightarrow>
                  i \<in> set (revealedPositions bananaShown) \<union>
                      set (defaultRevealedPositions bananaShown)) [0..<length ''BANANA'']"
    unfolding up f by code_simp
  have h1: "gameState (live ?g) = Playing" and h2: "inputLetter (live ?g) = [CHR ''A'']"
    and h3: "currentGameWord (live ?g) = Some ?w"
    and h4: "toUpperCase_char CHR ''A'' \<in> set (word ?w)"
    using f up by simp_all
  have h5: "\<forall>i < length (word ?w). word ?w ! i = toUpperCase_char CHR ''A'' \<longrightarrow>
           i \<in> set (revealedPositions (live ?g)) \<union> set (defaultRevealedPositions (live ?g))"
  proof (intro allI impI)
    fix i assume "i < length (word ?w)" and eq: "word ?w ! i = toUpperCase_char CHR ''A''"
    then have "i < length ''BANANA''" by simp
    then have "i \<in> set [0..<length ''BANANA'']"
      by (simp only: set_upt atLeastLessThan_iff le0 simp_thms)
    from all [unfolded list_all_iff, rule_format, OF this] eq
    show "i \<in> set (revealedPositions (live ?g)) \<union> set (defaultRevealedPositions (live ?g))"
      by simp
  qed
  from guessLetter_all_shown_counts_wrong [OF h1 h2 h3 h4 h5, of True]
  have "guessLetter True ?g =
     Inr \<lparr>live = bananaShown\<lparr>guessedLetters := [''A'', ''A'', ''A''], wrongGuesses := 4,
               inputLetter := []\<rparr>, timers = [Timer 2000 PassQuestion bananaShown]\<rparr>"
    by (elim exE conjE)
       (simp add: f up countWrongGuess_def setState_def setTimeout_def maxWrongGuesses_def)
  with f h4 all show ?thesis by simp
qed

section \<open>The input of a guess\<close>

lemma toUpperCase_idem: "toUpperCase (toUpperCase v) = toUpperCase v"
  by (simp add: toUpperCase_def toUpperCase_char_idem)

lemma updateGameScore_live:
  "live (updateGameScore updateOk c teamId pts g) =
     (live g)\<lparr>gameScores :=
        (if currentGameId c = None \<or> currentGameId c = Some 0 \<or> \<not> updateOk
         then gameScores (live g)
         else map (\<lambda>score. if team_id score = teamId
                             then score\<lparr>gs_points := teamPoints c teamId + pts\<rparr> else score)
                  (gameScores (live g)))\<rparr>"
  by (simp add: updateGameScore_def Let_def setState_def teamPoints_def)

lemma teamPoints_input [simp]: "teamPoints (c\<lparr>inputLetter := v\<rparr>) t = teamPoints c t"
  by (simp add: teamPoints_def)

lemma guessLetter_input:
  assumes "inputLetter (live g) \<noteq> []" and "v \<noteq> []"
    and "toUpperCase v = toUpperCase (inputLetter (live g))"
  shows "withoutInput (guessLetter updateOk (setState (\<lambda>s. s\<lparr>inputLetter := v\<rparr>) g))
       = withoutInput (guessLetter updateOk g)"
proof -
  let ?h = "setState (\<lambda>s. s\<lparr>inputLetter := v\<rparr>) g"
  let ?L = "toUpperCase (inputLetter (live g))"
  have hl: "live ?h = (live g)\<lparr>inputLetter := v\<rparr>" and ht: "timers ?h = timers g"
    by simp_all
  have hin: "inputLetter (live ?h) \<noteq> []" using assms(2) by simp
  have hL: "toUpperCase (inputLetter (live ?h)) = ?L" using assms(3) by simp
  have hw: "currentGameWord (live ?h) = currentGameWord (live g)"
    by (simp add: currentGameWord_def)
  have hu: "unrevealedPositions (live ?h) w l = unrevealedPositions (live g) w l" for w l
    by (simp add: unrevealedPositions_def)
  show ?thesis
  proof (cases "currentGameWord (live g)")
    case None
    then have None': "currentGameWord (live ?h) = None" using hw by simp
    show ?thesis
      unfolding guessLetter_no_word [OF assms(1) None] guessLetter_no_word [OF hin None'] hL
      by (simp add: withoutInput_def)
  next
    case (Some w)
    note w = Some
    have w': "currentGameWord (live ?h) = Some w" using hw w by simp
    show ?thesis
    proof (cases "\<not> includes_str (word w) ?L \<or> unrevealedPositions (live g) (word w) ?L = []")
      case True
      then have T': "\<not> includes_str (word w) (toUpperCase (inputLetter (live ?h))) \<or>
         unrevealedPositions (live ?h) (word w) (toUpperCase (inputLetter (live ?h))) = []"
        unfolding hL hu .
      show ?thesis
        unfolding guessLetter_wrong [OF assms(1) w True] guessLetter_wrong [OF hin w' T'] hL
        by (simp add: withoutInput_def forgetInput_def)
    next
      case False
      then have inc: "includes_str (word w) ?L" by simp
      from False obtain p ps where U: "unrevealedPositions (live g) (word w) ?L = p # ps"
        by (cases "unrevealedPositions (live g) (word w) ?L") auto
      have inc': "includes_str (word w) (toUpperCase (inputLetter (live ?h)))"
        unfolding hL by (rule inc)
      have U': "unrevealedPositions (live ?h) (word w) (toUpperCase (inputLetter (live ?h))) = p # ps"
        unfolding hL hu by (rule U)
      show ?thesis
      proof (cases "length (remdups ((revealedPositions (live g) @ [p]) @
                       defaultRevealedPositions (live g))) = length (word w)")
        case False
        then have F': "length (remdups ((revealedPositions (live ?h) @ [p]) @
                       defaultRevealedPositions (live ?h))) \<noteq> length (word w)"
          by simp
        show ?thesis
          unfolding guessLetter_reveal [OF assms(1) w inc U False]
            guessLetter_reveal [OF hin w' inc' U' F'] hL
          by (simp add: withoutInput_def)
      next
        case True
        then have T': "length (remdups ((revealedPositions (live ?h) @ [p]) @
                       defaultRevealedPositions (live ?h))) = length (word w)"
          by simp
        show ?thesis
        proof (cases "currentTeam (live g) < length (teams (live g))")
          case False
          then have F': "\<not> currentTeam (live ?h) < length (teams (live ?h))" by simp
          show ?thesis
            unfolding guessLetter_no_team [OF assms(1) w inc U True False]
              guessLetter_no_team [OF hin w' inc' U' T' F'] hL
            by (simp add: withoutInput_def)
        next
          case True
          then have tm: "currentTeam (live ?h) < length (teams (live ?h))" by simp
          show ?thesis
            unfolding guessLetter_win [OF assms(1) w inc U \<open>length (remdups ((revealedPositions (live g) @ [p]) @
                       defaultRevealedPositions (live g))) = length (word w)\<close> True]
              guessLetter_win [OF hin w' inc' U' T' tm] hL
            by (simp add: withoutInput_def updateGameScore_live forgetInput_def)
        qed
      qed
    qed
  qed
qed


lemma toUpperCase_char_other: "\<not> alphabetic ch \<Longrightarrow> toUpperCase_char ch = ch"
  by (auto simp: alphabetic_def toUpperCase_char_def Let_def)

lemma guessLetter_digit:
  "guessLetter True (typeLetter ''7'' exampleStart) =
     Inr \<lparr>live = (live exampleStart)\<lparr>guessedLetters := [''7''], wrongGuesses := 1\<rparr>,
          timers = []\<rparr>"
  by code_simp

text \<open>
  C10. For every letter \<open>a\<close>..\<open>z\<close> (the code units 97..122) the upper-case form is the
  code unit 32 below, \<open>A\<close>..\<open>Z\<close>, and \<^verbatim>\<open>toUpperCase\<close> maps the one to the other and
  leaves the upper-case form as it is. Guessing the lower-case letter gives the same
  result as guessing its upper-case form: through the input field (\<open>typeLetter\<close>, then
  \<^verbatim>\<open>guessLetter\<close>) the two results are equal; for \<^verbatim>\<open>guessLetter\<close> alone, on a state
  whose \<^verbatim>\<open>inputLetter\<close> is the one or the other letter, the two calls end alike (both
  return or both throw) with the same live state and the same pending timers. The only
  difference is the copy of \<^verbatim>\<open>inputLetter\<close> in the state that a new timer's callback
  closed over, which no callback reads, and after a throw the letter that is still in
  the field, which the call did not write.
\<close>

theorem guessLetter_case_insensitive:
  assumes "97 \<le> (of_char ch :: nat)" and "(of_char ch :: nat) \<le> 122"
  shows "toUpperCase [ch] = [char_of (of_char ch - 32 :: nat)] \<and>
         toUpperCase [char_of (of_char ch - 32 :: nat)] = [char_of (of_char ch - 32 :: nat)] \<and>
         char_of (of_char ch - 32 :: nat) \<noteq> ch \<and>
         guessLetter updateOk (typeLetter [ch] g) =
           guessLetter updateOk (typeLetter [char_of (of_char ch - 32 :: nat)] g) \<and>
         inputLetter (live (typeLetter [ch] g)) = [char_of (of_char ch - 32 :: nat)] \<and>
         withoutInput (guessLetter updateOk (setState (\<lambda>s. s\<lparr>inputLetter := [ch]\<rparr>) g)) =
           withoutInput
             (guessLetter updateOk
                (setState (\<lambda>s. s\<lparr>inputLetter := [char_of (of_char ch - 32 :: nat)]\<rparr>) g))"
proof -
  let ?u = "char_of (of_char ch - 32 :: nat) :: char"
  have n: "(of_char ch :: nat) - 32 < 256" using assms(2) by simp
  have ou: "(of_char ?u :: nat) = of_char ch - 32"
    using n by (simp add: of_char_of)
  have up: "toUpperCase_char ch = ?u"
    using assms by (simp add: toUpperCase_char_def Let_def)
  have "\<not> 97 \<le> (of_char ch :: nat) - 32" using assms(2) by simp
  then have uu: "toUpperCase_char ?u = ?u"
    by (simp add: toUpperCase_char_def Let_def ou)
  have ne: "?u \<noteq> ch"
  proof
    assume "?u = ch"
    then have "(of_char ?u :: nat) = of_char ch" by simp
    with ou assms(1) show False by simp
  qed
  have 1: "toUpperCase [ch] = [?u]" by (simp add: toUpperCase_def up)
  have 2: "toUpperCase [?u] = [?u]" by (simp add: toUpperCase_def uu)
  have 3: "guessLetter updateOk (typeLetter [ch] g) = guessLetter updateOk (typeLetter [?u] g)"
    by (simp only: typeLetter_def 1 2)
  have 4: "inputLetter (live (typeLetter [ch] g)) = [?u]"
    by (simp add: typeLetter_def 1)
  let ?g = "setState (\<lambda>s. s\<lparr>inputLetter := [?u]\<rparr>) g"
  have a: "inputLetter (live ?g) \<noteq> []" by simp
  have b: "[ch] \<noteq> []" by simp
  have c: "toUpperCase [ch] = toUpperCase (inputLetter (live ?g))" by (simp add: 1 2)
  have "setState (\<lambda>s. s\<lparr>inputLetter := [ch]\<rparr>) ?g = setState (\<lambda>s. s\<lparr>inputLetter := [ch]\<rparr>) g"
    by (simp add: setState_def)
  with guessLetter_input [OF a b c, of updateOk]
  have 5: "withoutInput (guessLetter updateOk (setState (\<lambda>s. s\<lparr>inputLetter := [ch]\<rparr>) g)) =
           withoutInput (guessLetter updateOk ?g)"
    by simp
  from 1 2 ne 3 4 5 show ?thesis by blast
qed

theorem guessLetter_case_insensitive_witness:
  "97 \<le> (of_char CHR ''c'' :: nat) \<and> (of_char CHR ''c'' :: nat) \<le> 122 \<and>
   char_of (of_char CHR ''c'' - 32 :: nat) = CHR ''C'' \<and>
   toUpperCase ''c'' = ''C'' \<and> toUpperCase ''C'' = ''C'' \<and>
   guessLetter True (typeLetter ''c'' exampleStart) =
     Inr \<lparr>live = (live exampleStart)\<lparr>guessedLetters := [''C''], revealedPositions := [0]\<rparr>,
          timers = []\<rparr> \<and>
   guessLetter True (typeLetter ''C'' exampleStart) =
     Inr \<lparr>live = (live exampleStart)\<lparr>guessedLetters := [''C''], revealedPositions := [0]\<rparr>,
          timers = []\<rparr> \<and>
   withoutInput (guessLetter True (setState (\<lambda>s. s\<lparr>inputLetter := ''c''\<rparr>) exampleStart)) =
     (False, (live exampleStart)\<lparr>guessedLetters := [''C''], revealedPositions := [0]\<rparr>, []) \<and>
   withoutInput (guessLetter True (setState (\<lambda>s. s\<lparr>inputLetter := ''C''\<rparr>) exampleStart)) =
     (False, (live exampleStart)\<lparr>guessedLetters := [''C''], revealedPositions := [0]\<rparr>, [])"
proof -
  have h1: "97 \<le> (of_char CHR ''c'' :: nat)" and h2: "(of_char CHR ''c'' :: nat) \<le> 122"
    by simp_all
  have u: "char_of (of_char CHR ''c'' - 32 :: nat) = CHR ''C''" by code_simp
  have e: "guessLetter True (typeLetter ''C'' exampleStart) =
     Inr \<lparr>live = (live exampleStart)\<lparr>guessedLetters := [''C''], revealedPositions := [0]\<rparr>,
          timers = []\<rparr>"
    by code_simp
  have d: "withoutInput (guessLetter True (setState (\<lambda>s. s\<lparr>inputLetter := ''C''\<rparr>) exampleStart)) =
     (False, (live exampleStart)\<lparr>guessedLetters := [''C''], revealedPositions := [0]\<rparr>, [])"
    by code_simp
  note t = guessLetter_case_insensitive [OF h1 h2, of True exampleStart, unfolded u]
  have 1: "toUpperCase ''c'' = ''C''" by (rule t [THEN conjunct1])
  have 2: "toUpperCase ''C'' = ''C''" by (rule t [THEN conjunct2, THEN conjunct1])
  have 3: "guessLetter True (typeLetter ''c'' exampleStart) =
             guessLetter True (typeLetter ''C'' exampleStart)"
    by (rule t [THEN conjunct2, THEN conjunct2, THEN conjunct2, THEN conjunct1])
  have 4: "withoutInput (guessLetter True (setState (\<lambda>s. s\<lparr>inputLetter := ''c''\<rparr>) exampleStart)) =
           withoutInput (guessLetter True (setState (\<lambda>s. s\<lparr>inputLetter := ''C''\<rparr>) exampleStart))"
    by (rule t [THEN conjunct2, THEN conjunct2, THEN conjunct2, THEN conjunct2, THEN conjunct2])
  show ?thesis
    unfolding 3 4 e d using h1 h2 u 1 2 by simp
qed

text \<open>
  C9, as the code has it. \<^verbatim>\<open>guessLetter\<close> does not look at the kind of the character:
  the digit 7, typed at the start of the game, is appended to the guessed letters and
  counted as a wrong guess.
\<close>

theorem guessLetter_digit_counterexample:
  "\<not> alphabetic CHR ''7'' \<and>
   inputLetter (live (typeLetter ''7'' exampleStart)) = ''7'' \<and>
   guessedLetters (live (typeLetter ''7'' exampleStart)) = [] \<and>
   wrongGuesses (live (typeLetter ''7'' exampleStart)) = 0 \<and>
   map_sum id (\<lambda>g. (guessedLetters (live g), wrongGuesses (live g)))
     (guessLetter True (typeLetter ''7'' exampleStart)) = Inr ([''7''], 1)"
proof -
  have "\<not> alphabetic CHR ''7''" by (simp add: alphabetic_def)
  moreover have "toUpperCase ''7'' = ''7''" by code_simp
  ultimately show ?thesis
    by (simp add: guessLetter_digit) (simp add: typeLetter_def live_exampleStart)
qed

text \<open>
  C9, amended. A guess of one character that is not a letter, on a word of letters,
  returns without an error and is handled as a guess of a letter that is not in the
  word: the character is appended to the guessed letters and the wrong guesses grow by
  1 (with the \<^verbatim>\<open>passQuestion\<close> timer scheduled when they reach \<open>maxWrongGuesses\<close>); the
  revealed positions, the state and the scores do not change. Only the empty input
  leaves everything as it is (\<open>guessLetter_empty\<close>).
\<close>

theorem guessLetter_non_alphabetic:
  assumes "inputLetter (live g) = [ch]" and "\<not> alphabetic ch"
    and "currentGameWord (live g) = Some w" and "\<forall>x \<in> set (word w). alphabetic x"
  shows "\<exists>g'. guessLetter updateOk g = Inr g' \<and>
           guessedLetters (live g') = guessedLetters (live g) @ [[ch]] \<and>
           wrongGuesses (live g') = wrongGuesses (live g) + 1 \<and>
           revealedPositions (live g') = revealedPositions (live g) \<and>
           gameState (live g') = gameState (live g) \<and>
           gameScores (live g') = gameScores (live g) \<and>
           timers g' = (if maxWrongGuesses \<le> wrongGuesses (live g) + 1
                        then timers g @ [Timer 2000 PassQuestion (live g)] else timers g)"
proof -
  have letter: "toUpperCase (inputLetter (live g)) = [ch]"
    by (simp add: assms(1) toUpperCase_single toUpperCase_char_other [OF assms(2)])
  have nonempty: "inputLetter (live g) \<noteq> []" using assms(1) by simp
  have "ch \<notin> set (word w)" using assms(2,4) by blast
  then have "\<not> includes_str (word w) (toUpperCase (inputLetter (live g))) \<or>
         unrevealedPositions (live g) (word w) (toUpperCase (inputLetter (live g))) = []"
    unfolding letter includes_str_single by simp
  from guessLetter_wrong [OF nonempty assms(3) this, of updateOk]
  show ?thesis unfolding letter by simp
qed

theorem guessLetter_non_alphabetic_witness:
  "inputLetter (live (typeLetter ''7'' exampleStart)) = ''7'' \<and> \<not> alphabetic CHR ''7'' \<and>
   currentGameWord (live (typeLetter ''7'' exampleStart))
     = Some \<lparr>w_id = 1, word = ''CAT'', points = 10\<rparr> \<and>
   list_all alphabetic ''CAT'' \<and>
   (\<exists>g'. guessLetter True (typeLetter ''7'' exampleStart) = Inr g' \<and>
         guessedLetters (live g') = [''7''] \<and> wrongGuesses (live g') = 1 \<and>
         revealedPositions (live g') = [] \<and> gameState (live g') = Playing \<and> timers g' = [])"
proof -
  let ?g = "typeLetter ''7'' exampleStart"
  let ?w = "\<lparr>w_id = 1, word = ''CAT'', points = 10\<rparr>"
  have up: "toUpperCase ''7'' = ''7''" by code_simp
  have l: "live ?g = (live exampleStart)\<lparr>inputLetter := ''7''\<rparr>" "timers ?g = []"
    by (simp_all add: typeLetter_def up exampleStart_def)
  have h1: "inputLetter (live ?g) = [CHR ''7'']" by (simp add: l)
  have h2: "\<not> alphabetic CHR ''7''" by (simp add: alphabetic_def)
  have h3: "currentGameWord (live ?g) = Some ?w"
    by (simp add: l currentGameWord_def live_exampleStart exampleWords_def)
  have a: "list_all alphabetic ''CAT''" by (simp add: alphabetic_def)
  then have h4: "\<forall>x \<in> set (word ?w). alphabetic x" by (simp add: list_all_iff)
  from guessLetter_non_alphabetic [OF h1 h2 h3 h4, of True]
  have "\<exists>g'. guessLetter True ?g = Inr g' \<and>
         guessedLetters (live g') = [''7''] \<and> wrongGuesses (live g') = 1 \<and>
         revealedPositions (live g') = [] \<and> gameState (live g') = Playing \<and> timers g' = []"
    by (auto simp: l live_exampleStart maxWrongGuesses_def)
  with h1 h2 h3 a show ?thesis by simp
qed


section \<open>The number of wrong guesses\<close>

lemma guessLetter_timers:
  assumes "guessLetter updateOk g = Inr g'"
  shows "timers g' = timers g \<or> timers g' = timers g @ [Timer 2000 PassQuestion (live g)] \<or>
         timers g' = timers g @ [Timer 2000 NextWord (live g)]"
  using assms by (cases rule: guessLetter_outcome) auto

lemma guessLetter_wrongGuesses_step:
  assumes "guessLetter updateOk g = Inr g'"
  shows "wrongGuesses (live g') = wrongGuesses (live g) \<or>
         wrongGuesses (live g') = wrongGuesses (live g) + 1"
  using assms by (cases rule: guessLetter_outcome) auto

text \<open>
  C7, on the code. \<^verbatim>\<open>guessLetter\<close> does not compare \<^verbatim>\<open>wrongGuesses\<close> with
  \<open>maxWrongGuesses\<close> before it counts, and the state stays \<open>Playing\<close> for the 2000 ms
  between the fourth wrong guess and the scheduled \<^verbatim>\<open>passQuestion\<close>. Five wrong guesses
  at the start of the example game, the fifth within that delay, leave
  \<^verbatim>\<open>wrongGuesses\<close> at 5, above \<open>maxWrongGuesses = 4\<close>, with two \<^verbatim>\<open>passQuestion\<close> timers
  pending.
\<close>

theorem wrongGuesses_above_max:
  "map_option (map_sum id (\<lambda>g. (wrongGuesses (live g), gameState (live g),
                                  map (\<lambda>t. case t of Timer d cb c \<Rightarrow> (d, cb, wrongGuesses c))
                                      (timers g))))
     (run fiveWrong exampleStart)
   = Some (Inr (5, Playing, [(2000, PassQuestion, 3), (2000, PassQuestion, 4)])) \<and>
   maxWrongGuesses = 4"
  unfolding fiveWrong_def by code_simp

section \<open>Pending timers\<close>

lemma passQuestion_timers:
  assumes "passQuestion c g = Some g'"
  shows "timers g' = timers g \<or> timers g' = timers g @ [Timer 3000 NextWord c]"
proof (cases "4 \<le> length (teamsAttempted c) + 1")
  case True
  from passQuestion_lost [OF True, of g] assms show ?thesis by auto
next
  case False
  then have "length (teamsAttempted c) + 1 < 4" by simp
  from passQuestion_next_team [OF this, of g] assms show ?thesis by auto
qed

lemma step_bananaShown:
  "step (ClickGuess True) \<lparr>live = bananaShown, timers = []\<rparr> =
     Some (Inr \<lparr>live = bananaShown\<lparr>guessedLetters := [''A'', ''A'', ''A''], wrongGuesses := 4,
               inputLetter := []\<rparr>, timers = [Timer 2000 PassQuestion bananaShown]\<rparr>)"
  by (simp add: bananaShown_fields guessLetter_bananaShown)

text \<open>
  C8, as the code has it. No timer is ever cancelled. In \<open>staleRun\<close> the fourth team
  clicks Pass while the timer of its fourth wrong guess is pending; that timer fires
  in the \<open>Lost\<close> state and schedules a second next-word timer; the first next-word timer
  starts the second word, the B of BANANA is revealed, and then the second next-word
  timer, scheduled during the first word, fires in the new round and resets it.
\<close>

theorem stale_timer_counterexample:
  "map_option (map_sum id summary) (run (take 12 staleRun) exampleStart)
     = Some (Inr (0, Lost, [], [(2000, PassQuestion, 0), (3000, NextWord, 0)])) \<and>
   map_option (map_sum id summary) (run (take 13 staleRun) exampleStart)
     = Some (Inr (0, Lost, [], [(3000, NextWord, 0), (3000, NextWord, 0)])) \<and>
   map_option (map_sum id summary) (run (take 14 staleRun) exampleStart)
     = Some (Inr (1, Playing, [], [(3000, NextWord, 0)])) \<and>
   map_option (map_sum id summary) (run staleRun exampleStart)
     = Some (Inr (1, Playing, [0], [(3000, NextWord, 0)])) \<and>
   map_option (map_sum id summary) (run (staleRun @ [TimerFires [] 0]) exampleStart)
     = Some (Inr (1, Playing, [], []))"
  unfolding staleRun_def by code_simp

text \<open>
  C8, amended. Every step of the game (typing, a click on Guess or Pass, a timer that
  fires) keeps every pending timer but the one that fires, in the same order, and adds
  at most one new timer at the end: a delayed transition, once scheduled, stays pending
  until it runs, whatever round has begun in between.
\<close>

theorem timers_never_cancelled:
  assumes "step e g = Some (Inr g')"
  shows "\<exists>new. length new \<le> 1 \<and>
           timers g' =
             (case e of
                TimerFires draws i \<Rightarrow> take i (timers g) @ drop (Suc i) (timers g)
              | _ \<Rightarrow> timers g) @ new"
proof (cases e)
  case (TypeLetter v)
  with assms have "timers g' = timers g" by (auto simp: typeLetter_def split: if_splits)
  then show ?thesis using TypeLetter by simp
next
  case (ClickGuess updateOk)
  with assms have "g' = g \<or> guessLetter updateOk g = Inr g'" by (auto split: if_splits)
  then have "timers g' = timers g @ [] \<or> (\<exists>t. timers g' = timers g @ [t])"
    using guessLetter_timers [of updateOk g g'] by auto
  then show ?thesis using ClickGuess
    by (auto intro: exI [of _ "[]"] exI [of _ "[t]" for t])
next
  case ClickPass
  with assms have "g' = g \<or> passQuestion (live g) g = Some g'" by (auto split: if_splits)
  then have "timers g' = timers g @ [] \<or> (\<exists>t. timers g' = timers g @ [t])"
    using passQuestion_timers [of "live g" g g'] by auto
  then show ?thesis using ClickPass
    by (auto intro: exI [of _ "[]"] exI [of _ "[t]" for t])
next
  case (TimerFires draws i)
  let ?rest = "take i (timers g) @ drop (Suc i) (timers g)"
  from assms TimerFires have f: "fire draws i g = Some g'" by auto
  have "timers g' = ?rest @ [] \<or> (\<exists>t. timers g' = ?rest @ [t])"
  proof (cases "i < length (timers g)")
    case False
    with f show ?thesis by (simp add: fire_def)
  next
    case True
    obtain d cb c where t: "timers g ! i = Timer d cb c" by (cases "timers g ! i") auto
    show ?thesis
    proof (cases cb)
      case PassQuestion
      with f True t have "passQuestion c (g\<lparr>timers := ?rest\<rparr>) = Some g'"
        by (simp add: fire_def)
      from passQuestion_timers [OF this] show ?thesis by auto
    next
      case NextWord
      with f True t show ?thesis by (auto simp: fire_def split: option.splits)
    qed
  qed
  then show ?thesis using TimerFires
    by (auto intro: exI [of _ "[]"] exI [of _ "[t]" for t])
qed


theorem timers_never_cancelled_witness:
  "step (ClickGuess True) \<lparr>live = bananaShown, timers = []\<rparr> =
     Some (Inr \<lparr>live = bananaShown\<lparr>guessedLetters := [''A'', ''A'', ''A''], wrongGuesses := 4,
               inputLetter := []\<rparr>, timers = [Timer 2000 PassQuestion bananaShown]\<rparr>) \<and>
   (\<exists>new. length new \<le> 1 \<and> [Timer 2000 PassQuestion bananaShown] = [] @ new) \<and>
   step (TimerFires [] 0) twoPending =
     Some (Inr \<lparr>live = (live twoPending)\<lparr>teamsAttempted := [1], currentTeam := 2,
                   isPassedQuestion := True, guessedLetters := [], revealedPositions := [],
                   wrongGuesses := 0\<rparr>,
               timers = [timers twoPending ! 1]\<rparr>) \<and>
   (\<exists>new. length new \<le> 1 \<and>
      [timers twoPending ! 1] =
        (take 0 (timers twoPending) @ drop (Suc 0) (timers twoPending)) @ new)"
  using timers_never_cancelled [OF step_bananaShown] timers_never_cancelled [OF step_twoPending]
    step_bananaShown step_twoPending
  by simp

section \<open>The rounds a game can reach: an invariant\<close>

text \<open>
  Every state that a game started on non-empty words reaches by typing, clicks and
  firing timers (in any order, whatever the callbacks closed over, with draws in range)
  satisfies \<open>roundInv\<close>. In particular a round that is \<open>Playing\<close> shows only positions
  of its word and not yet all of them, which is what the statement about winning
  assumes of the round.
\<close>

lemma numToReveal_less: "0 < L \<Longrightarrow> numToReveal L < L"
  unfolding numToReveal_def by arith

lemma hints_do_not_cover:
  assumes "card (set ds) \<le> numToReveal L" and "0 < L"
  shows "\<not> {0..<L} \<subseteq> set [] \<union> set ds"
proof
  assume "{0..<L} \<subseteq> set [] \<union> set ds"
  then have "card {0..<L} \<le> card (set ds)" by (intro card_mono) auto
  with assms numToReveal_less [OF assms(2)] show False by simp
qed

lemma currentGameWord_in_words: "currentGameWord s = Some w \<Longrightarrow> w \<in> set (words s)"
  by (auto simp: currentGameWord_def split: if_splits)

lemma roundInv_liveInv:
  "roundInv g \<longleftrightarrow> liveInv (live g) \<and>
     (\<forall>t \<in> set (timers g). closureWords t = words (live g))"
  by (rule roundInv_def)

lemma liveInv_cong:
  assumes "liveInv s" and "words s' = words s" and "currentWordIndex s' = currentWordIndex s"
    and "currentTeam s' < 4"
    and "revealedPositions s' = revealedPositions s"
    and "defaultRevealedPositions s' = defaultRevealedPositions s"
    and "gameState s' = Playing \<longrightarrow> gameState s = Playing"
  shows "liveInv s'"
  using assms by (auto simp: liveInv_def currentGameWord_def shown_def)

lemma liveInv_reset:
  assumes "liveInv s" and "words s' = words s" and "currentWordIndex s' = currentWordIndex s"
    and "currentTeam s' < 4"
    and "revealedPositions s' = []"
    and "defaultRevealedPositions s' = defaultRevealedPositions s"
  shows "liveInv s'"
proof -
  have cw: "currentGameWord s' = currentGameWord s"
    using assms(2,3) by (simp add: currentGameWord_def)
  { fix w assume w: "currentGameWord s' = Some w"
    then have "w \<in> set (words s)" using cw currentGameWord_in_words by metis
    then have L: "0 < length (word w)" using assms(1) by (auto simp: liveInv_def)
    have c: "card (set (defaultRevealedPositions s)) \<le> numToReveal (length (word w))"
      using assms(1) w cw by (auto simp: liveInv_def)
    have "\<not> {0..<length (word w)} \<subseteq> shown s'"
      using hints_do_not_cover [OF c L] by (simp add: shown_def assms(5,6))
  }
  then show ?thesis
    using assms cw by (auto simp: liveInv_def)
qed


lemma currentGameWord_cong:
  "words s' = words s \<Longrightarrow> currentWordIndex s' = currentWordIndex s \<Longrightarrow>
     currentGameWord s' = currentGameWord s"
  by (simp add: currentGameWord_def)

lemma liveInv_reveal:
  assumes "liveInv s" and "currentGameWord s = Some w" and "p < length (word w)"
    and "words s' = words s" and "currentWordIndex s' = currentWordIndex s"
    and "currentTeam s' < 4"
    and "revealedPositions s' = revealedPositions s @ [p]"
    and "defaultRevealedPositions s' = defaultRevealedPositions s"
    and "gameState s' = Playing \<longrightarrow> \<not> {0..<length (word w)} \<subseteq> shown s'"
  shows "liveInv s'"
proof -
  have cw: "currentGameWord s' = Some w"
    using currentGameWord_cong [OF assms(4,5)] assms(2) by simp
  have "set (revealedPositions s) \<subseteq> {0..<length (word w)}"
    "set (defaultRevealedPositions s) \<subseteq> {0..<length (word w)}"
    "card (set (defaultRevealedPositions s)) \<le> numToReveal (length (word w))"
    "\<forall>w \<in> set (words s). word w \<noteq> []"
    using assms(1,2) by (auto simp: liveInv_def)
  then show ?thesis
    unfolding liveInv_def cw using assms(3,4,6-9) by auto
qed

lemma liveInv_guessLetter:
  assumes "liveInv (live g)" and "guessLetter updateOk g = Inr g'"
  shows "liveInv (live g')" and "words (live g') = words (live g)"
    and "\<forall>t \<in> set (timers g'). t \<in> set (timers g) \<or> (\<exists>d cb. t = Timer d cb (live g))"
    and "teams (live g') = teams (live g)"
proof -
  have "liveInv (live g') \<and> words (live g') = words (live g) \<and>
        (\<forall>t \<in> set (timers g'). t \<in> set (timers g) \<or> (\<exists>d cb. t = Timer d cb (live g))) \<and>
        teams (live g') = teams (live g)"
    using assms(2)
  proof (cases rule: guessLetter_outcome)
    case empty
    with assms(1) show ?thesis by simp
  next
    case wrong
    have "currentTeam (live g) < 4" using assms(1) by (simp add: liveInv_def)
    then have "liveInv (live g')"
      by (intro liveInv_cong [OF assms(1)]) (simp_all add: wrong(2))
    then show ?thesis using wrong(2) by auto
  next
    case (reveal w p)
    let ?A = "set (revealedPositions (live g) @ [p]) \<union> set (defaultRevealedPositions (live g))"
    have t4: "currentTeam (live g) < 4" using assms(1) by (simp add: liveInv_def)
    have sub: "?A \<subseteq> {0..<length (word w)}"
      using assms(1) reveal(1,2) by (auto simp: liveInv_def)
    then have nc: "\<not> {0..<length (word w)} \<subseteq> ?A"
      using covered_iff_card [OF sub] reveal(3) by simp
    have "liveInv (live g')"
      using t4 nc
      by (intro liveInv_reveal [OF assms(1) reveal(1,2)]) (simp_all add: reveal(4) shown_def)
    then show ?thesis using reveal(4) by auto
  next
    case (win w p gs)
    have t4: "currentTeam (live g) < 4" using assms(1) by (simp add: liveInv_def)
    have "liveInv (live g')"
      using t4
      by (intro liveInv_reveal [OF assms(1) win(1,2)]) (simp_all add: win(4))
    then show ?thesis using win(4) by auto
  qed
  then show "liveInv (live g')" and "words (live g') = words (live g)"
    and "\<forall>t \<in> set (timers g'). t \<in> set (timers g) \<or> (\<exists>d cb. t = Timer d cb (live g))"
    and "teams (live g') = teams (live g)"
    by blast+
qed


lemma liveInv_passQuestion:
  assumes "liveInv (live g)" and "passQuestion c g = Some g'"
  shows "liveInv (live g')" and "words (live g') = words (live g)"
    and "\<forall>t \<in> set (timers g'). t \<in> set (timers g) \<or> (\<exists>d cb. t = Timer d cb c)"
    and "teams (live g') = teams (live g)"
proof -
  have "liveInv (live g') \<and> words (live g') = words (live g) \<and>
        (\<forall>t \<in> set (timers g'). t \<in> set (timers g) \<or> (\<exists>d cb. t = Timer d cb c)) \<and>
        teams (live g') = teams (live g)"
  proof (cases "4 \<le> length (teamsAttempted c) + 1")
    case True
    from passQuestion_lost [OF True, of g] assms(2)
    have g': "g' = \<lparr>live = (live g)\<lparr>teamsAttempted := teamsAttempted c @ [currentTeam c],
                                  gameState := Lost\<rparr>,
                 timers = timers g @ [Timer 3000 NextWord c]\<rparr>" by simp
    have "currentTeam (live g) < 4" using assms(1) by (simp add: liveInv_def)
    then have "liveInv (live g')"
      by (intro liveInv_cong [OF assms(1)]) (simp_all add: g')
    then show ?thesis using g' by auto
  next
    case False
    then have "length (teamsAttempted c) + 1 < 4" by simp
    from passQuestion_next_team [OF this, of g] assms(2) obtain k where
      g': "g' = \<lparr>live = (live g)\<lparr>teamsAttempted := teamsAttempted c @ [currentTeam c],
                     currentTeam := (currentTeam c + 1 + k) mod 4, isPassedQuestion := True,
                     guessedLetters := [], revealedPositions := [], wrongGuesses := 0,
                     gameState := Playing, inputLetter := []\<rparr>,
                 timers = timers g\<rparr>"
      by auto
    have "liveInv (live g')"
      by (intro liveInv_reset [OF assms(1)]) (simp_all add: g')
    then show ?thesis using g' by auto
  qed
  then show "liveInv (live g')" and "words (live g') = words (live g)"
    and "\<forall>t \<in> set (timers g'). t \<in> set (timers g) \<or> (\<exists>d cb. t = Timer d cb c)"
    and "teams (live g') = teams (live g)"
    by blast+
qed

lemma liveInv_nextWord:
  assumes "liveInv s" and "words c = words s"
    and "wordEffect draws s (nextWord c s) = Some s'"
    and "\<forall>w. currentGameWord (nextWord c s) = Some w \<longrightarrow> (\<forall>r \<in> set draws. r < length (word w))"
  shows "liveInv s' \<and> words s' = words s \<and> teams s' = teams s"
proof (cases "currentWordIndex c + 1 < length (words c)")
  case False
  then have n: "nextWord c s = s\<lparr>gameState := Finished\<rparr>" by (rule nextWord_finish)
  have "wordEffect draws s (nextWord c s) = Some (nextWord c s)"
    by (rule wordEffect_same_word) (simp_all add: n)
  with assms(3) have s': "s' = s\<lparr>gameState := Finished\<rparr>" using n by simp
  have "currentTeam s < 4" using assms(1) by (simp add: liveInv_def)
  then have "liveInv s'"
    by (intro liveInv_cong [OF assms(1)]) (simp_all add: s')
  then show ?thesis using s' by simp
next
  case True
  let ?n = "nextWord c s"
  let ?i = "currentWordIndex c + 1"
  have n: "?n = s\<lparr>currentWordIndex := ?i, currentTeam := ?i mod 4,
             originalTeamForQuestion := ?i mod 4,
             guessedLetters := [], revealedPositions := [], wrongGuesses := 0,
             gameState := Playing, inputLetter := [], teamsAttempted := [],
             isPassedQuestion := False\<rparr>"
    using True by (rule nextWord_advance)
  have i: "?i < length (words s)" using True assms(2) by simp
  let ?w = "words s ! ?i"
  have cw: "currentGameWord ?n = Some ?w" using i by (simp add: n currentGameWord_def)
  have win: "?w \<in> set (words s)" using i by simp
  then have L: "0 < length (word ?w)" using assms(1) by (auto simp: liveInv_def)
  have ne: "\<forall>w \<in> set (words s). word w \<noteq> []" using assms(1) by (simp add: liveInv_def)
  show ?thesis
  proof (cases "currentWordIndex ?n = currentWordIndex s \<and> currentGameWord ?n = currentGameWord s")
    case True
    then have "wordEffect draws s ?n = Some ?n" by (simp add: wordEffect_def)
    with assms(3) have s': "s' = ?n" by simp
    have "liveInv ?n"
      using True by (intro liveInv_reset [OF assms(1)]) (simp_all add: n)
    then show ?thesis using s' n by simp
  next
    case False
    then have "wordEffect draws s ?n = generateDefaultRevealedPositions draws ?n ?n"
      using cw by (auto simp: wordEffect_def)
    with assms(3) have "generateDefaultRevealedPositions draws ?n ?n = Some s'" by simp
    then obtain qs where pick: "pickPositions (numToReveal (length (word ?w))) [] draws = Some qs"
      and s': "s' = ?n\<lparr>defaultRevealedPositions := sort qs\<rparr>"
      using cw by (auto simp: generateDefaultRevealedPositions_def split: option.splits)
    have "\<forall>r \<in> set draws. r < length (word ?w)" using assms(4) cw by simp
    from pickPositions_Some [OF pick, of "length (word ?w)"] this
    have qs: "length qs = numToReveal (length (word ?w))" "distinct qs"
      "\<forall>p \<in> set qs. p < length (word ?w)"
      by auto
    have cw': "currentGameWord s' = Some ?w" using i by (simp add: s' n currentGameWord_def)
    have f: "words s' = words s" "revealedPositions s' = []"
      "defaultRevealedPositions s' = sort qs" "currentTeam s' = ?i mod 4"
      "teams s' = teams s"
      by (simp_all add: s' n)
    have card: "card (set (sort qs)) \<le> numToReveal (length (word ?w))"
      using qs(1,2) by (simp add: distinct_card)
    have nc: "\<not> {0..<length (word ?w)} \<subseteq> set [] \<union> set (sort qs)"
      using card L by (rule hints_do_not_cover)
    have "liveInv s'"
      unfolding liveInv_def cw' f shown_def using ne qs(3) card nc by auto
    then show ?thesis using f by simp
  qed
qed

lemma roundInv_step:
  assumes "roundInv g" and "drawsInRange e g" and "step e g = Some (Inr g')"
  shows "roundInv g' \<and> teams (live g') = teams (live g)"
proof -
  have li: "liveInv (live g)"
    and ti: "\<forall>t \<in> set (timers g). closureWords t = words (live g)"
    using assms(1) by (simp_all add: roundInv_liveInv)
  have t4: "currentTeam (live g) < 4" using li by (simp add: liveInv_def)
  show ?thesis
  proof (cases e)
    case (TypeLetter v)
    with assms(3) have g': "g' = (if gameState (live g) = Playing then typeLetter v g else g)"
      by simp
    have "liveInv (live g')"
      using t4 by (intro liveInv_cong [OF li]) (simp_all add: g' typeLetter_def)
    moreover have "words (live g') = words (live g)" "timers g' = timers g"
      "teams (live g') = teams (live g)"
      by (simp_all add: g' typeLetter_def)
    ultimately show ?thesis using ti by (simp add: roundInv_liveInv)
  next
    case (ClickGuess updateOk)
    with assms(3) have "g' = g \<or> guessLetter updateOk g = Inr g'" by (auto split: if_splits)
    then show ?thesis
    proof
      assume "g' = g" with assms(1) show ?thesis by simp
    next
      assume gl: "guessLetter updateOk g = Inr g'"
      note l = liveInv_guessLetter [OF li gl]
      have "\<forall>t \<in> set (timers g'). closureWords t = words (live g')"
        using l(2,3) ti by fastforce
      with l(1,4) show ?thesis by (simp add: roundInv_liveInv)
    qed
  next
    case ClickPass
    with assms(3) have "g' = g \<or> passQuestion (live g) g = Some g'" by (auto split: if_splits)
    then show ?thesis
    proof
      assume "g' = g" with assms(1) show ?thesis by simp
    next
      assume pq: "passQuestion (live g) g = Some g'"
      note l = liveInv_passQuestion [OF li pq]
      have "\<forall>t \<in> set (timers g'). closureWords t = words (live g')"
        using l(2,3) ti by fastforce
      with l(1,4) show ?thesis by (simp add: roundInv_liveInv)
    qed
  next
    case (TimerFires draws i)
    with assms(3) have f: "fire draws i g = Some g'" by auto
    show ?thesis
    proof (cases "i < length (timers g)")
      case False
      with f have "g' = g" by (simp add: fire_def)
      with assms(1) show ?thesis by simp
    next
      case True
      let ?rest = "take i (timers g) @ drop (Suc i) (timers g)"
      have rest: "set ?rest \<subseteq> set (timers g)"
        using set_take_subset [of i "timers g"] set_drop_subset [of "Suc i" "timers g"] by auto
      obtain d cb c where t: "timers g ! i = Timer d cb c" by (cases "timers g ! i") auto
      have "Timer d cb c \<in> set (timers g)" using True t nth_mem by metis
      then have wc: "words c = words (live g)" using ti by fastforce
      show ?thesis
      proof (cases cb)
        case PassQuestion
        with f True t have pq: "passQuestion c (g\<lparr>timers := ?rest\<rparr>) = Some g'"
          by (simp add: fire_def)
        have li': "liveInv (live (g\<lparr>timers := ?rest\<rparr>))" using li by simp
        note l = liveInv_passQuestion [OF li' pq]
        have "\<forall>t \<in> set (timers g'). closureWords t = words (live g')"
          using l(2,3) ti rest wc by fastforce
        with l(1,4) show ?thesis by (simp add: roundInv_liveInv)
      next
        case NextWord
        with f True t obtain s' where
          we: "wordEffect draws (live g) (nextWord c (live g)) = Some s'"
          and g': "g' = \<lparr>live = s', timers = ?rest\<rparr>"
          by (cases g) (auto simp: fire_def split: option.splits)
        have dr: "\<forall>w. currentGameWord (nextWord c (live g)) = Some w \<longrightarrow>
                     (\<forall>r \<in> set draws. r < length (word w))"
          using assms(2) TimerFires True t NextWord
          by (auto simp: drawsInRange_def split: option.splits)
        from liveInv_nextWord [OF li wc we dr]
        have l: "liveInv s'" "words s' = words (live g)" "teams s' = teams (live g)"
          by simp_all
        have "\<forall>t \<in> set (timers g'). closureWords t = words (live g')"
          using l(2) ti rest g' by fastforce
        with l(1,3) g' show ?thesis by (simp add: roundInv_liveInv)
      qed
    qed
  qed
qed

lemma roundInv_run:
  assumes "roundInv g" and "drawsInRangeRun es g" and "run es g = Some (Inr g')"
  shows "roundInv g' \<and> teams (live g') = teams (live g)"
  using assms
proof (induction es arbitrary: g)
  case Nil
  then show ?case by simp
next
  case (Cons e es)
  from Cons.prems(3) obtain g1 where s: "step e g = Some (Inr g1)" and r: "run es g1 = Some (Inr g')"
    by (auto split: option.splits sum.splits)
  from Cons.prems(2) s have d: "drawsInRange e g" "drawsInRangeRun es g1" by simp_all
  from roundInv_step [OF Cons.prems(1) d(1) s]
  have 1: "roundInv g1" "teams (live g1) = teams (live g)" by simp_all
  from Cons.IH [OF 1(1) d(2) r] 1(2) show ?case by simp
qed

lemma loadInitialData_fields:
  "revealedPositions (loadInitialData teamsData wordsData gameData scoresOk initialState) = []"
  "defaultRevealedPositions (loadInitialData teamsData wordsData gameData scoresOk initialState) = []"
  "currentWordIndex (loadInitialData teamsData wordsData gameData scoresOk initialState) = 0"
  "currentTeam (loadInitialData teamsData wordsData gameData scoresOk initialState) = 0"
  "words (loadInitialData teamsData wordsData gameData scoresOk initialState) = [] \<or>
   words (loadInitialData teamsData wordsData gameData scoresOk initialState) = wordsData"
  "teams (loadInitialData teamsData wordsData gameData scoresOk initialState) = teamsData"
  by (auto simp: loadInitialData_def autoStartGame_def initialState_def resetGame_def Let_def
      split: option.splits)

lemma roundInv_startGame:
  assumes "startGame teamsData wordsData gameData scoresOk draws = Some g"
    and "\<forall>w \<in> set wordsData. word w \<noteq> []"
    and "\<forall>r \<in> set draws. r < length (word (hd wordsData))"
  shows "roundInv g \<and> teams (live g) = teamsData"
proof -
  let ?s = "loadInitialData teamsData wordsData gameData scoresOk initialState"
  note f = loadInitialData_fields [of teamsData wordsData gameData scoresOk]
  from assms(1) obtain s' where we: "wordEffect draws initialState ?s = Some s'"
    and g: "g = \<lparr>live = s', timers = []\<rparr>"
    by (auto simp: startGame_def)
  have ne: "\<forall>w \<in> set (words ?s). word w \<noteq> []" using f(5) assms(2) by auto
  have "liveInv s' \<and> teams s' = teamsData"
  proof (cases "currentGameWord ?s")
    case None
    then have "wordEffect draws initialState ?s = Some ?s"
      by (simp add: wordEffect_def)
    with we have "s' = ?s" by simp
    then show ?thesis using None ne f(4,6) by (simp add: liveInv_def)
  next
    case (Some w)
    then have w: "words ?s = wordsData" "wordsData \<noteq> []" "w = hd wordsData"
      using f(3,5) by (auto simp: currentGameWord_def hd_conv_nth split: if_splits)
    have "currentGameWord initialState = None"
      by (simp add: currentGameWord_def initialState_def)
    then have "wordEffect draws initialState ?s = generateDefaultRevealedPositions draws ?s ?s"
      using Some by (simp add: wordEffect_def)
    with we obtain qs where pick: "pickPositions (numToReveal (length (word w))) [] draws = Some qs"
      and s': "s' = ?s\<lparr>defaultRevealedPositions := sort qs\<rparr>"
      using Some by (auto simp: generateDefaultRevealedPositions_def split: option.splits)
    have "\<forall>r \<in> set draws. r < length (word w)" using assms(3) w(3) by simp
    from pickPositions_Some [OF pick, of "length (word w)"] this
    have qs: "length qs = numToReveal (length (word w))" "distinct qs"
      "\<forall>p \<in> set qs. p < length (word w)"
      by auto
    have "w \<in> set wordsData" using w(2,3) by simp
    then have L: "0 < length (word w)" using assms(2) by auto
    have "currentGameWord s' = currentGameWord ?s"
      by (rule currentGameWord_cong) (simp_all add: s')
    then have cw': "currentGameWord s' = Some w" using Some by simp
    have card: "card (set (sort qs)) \<le> numToReveal (length (word w))"
      using qs(1,2) by (simp add: distinct_card)
    have nc: "\<not> {0..<length (word w)} \<subseteq> set [] \<union> set (sort qs)"
      using card L by (rule hints_do_not_cover)
    have f': "words s' = words ?s" "revealedPositions s' = []"
      "defaultRevealedPositions s' = sort qs" "currentTeam s' = 0" "teams s' = teamsData"
      by (simp_all add: s' f)
    have "liveInv s'"
      unfolding liveInv_def cw' f' shown_def using ne qs(3) card nc by auto
    then show ?thesis using f'(5) by simp
  qed
  then show ?thesis by (simp add: roundInv_liveInv g)
qed

lemma playing_round_reachable:
  assumes "startGame teamsData wordsData gameData scoresOk draws = Some g0"
    and "\<forall>w \<in> set wordsData. word w \<noteq> []"
    and "\<forall>r \<in> set draws. r < length (word (hd wordsData))"
    and "drawsInRangeRun es g0" and "run es g0 = Some (Inr g)"
    and "gameState (live g) = Playing" and "currentGameWord (live g) = Some w"
  shows "set (revealedPositions (live g)) \<union> set (defaultRevealedPositions (live g))
           \<subseteq> {0..<length (word w)}"
    and "\<not> {0..<length (word w)} \<subseteq>
           set (revealedPositions (live g)) \<union> set (defaultRevealedPositions (live g))"
    and "length teamsData = 4 \<Longrightarrow> currentTeam (live g) < length (teams (live g))"
proof -
  from roundInv_startGame [OF assms(1-3)]
  have i0: "roundInv g0" and t0: "teams (live g0) = teamsData" by simp_all
  from roundInv_run [OF i0 assms(4,5)]
  have i: "roundInv g" and t: "teams (live g) = teams (live g0)" by simp_all
  from i assms(6,7)
  show "set (revealedPositions (live g)) \<union> set (defaultRevealedPositions (live g))
           \<subseteq> {0..<length (word w)}"
    and "\<not> {0..<length (word w)} \<subseteq>
           set (revealedPositions (live g)) \<union> set (defaultRevealedPositions (live g))"
    by (auto simp: roundInv_def liveInv_def shown_def)
  have "currentTeam (live g) < 4" using i by (simp add: roundInv_def liveInv_def)
  then show "currentTeam (live g) < length (teams (live g))" if "length teamsData = 4"
    using that t t0 by simp
qed

section \<open>The score rows of a started game\<close>

text \<open>
  A game that \<^verbatim>\<open>autoStartGame\<close> has started keeps its id, its teams, and one score row
  for each team in every state it reaches: the scores are written by
  \<^verbatim>\<open>updateGameScore\<close> only, which changes the points of rows and nothing else. So in
  the statement about winning, the game id is set and the score row of the current
  team is there for every current team among the loaded teams: whether the team gets
  its points depends on the answer of the store alone.
\<close>

lemma updateGameScore_rows:
  "map team_id (gameScores (live (updateGameScore updateOk c teamId pts g)))
     = map team_id (gameScores (live g))"
  by (simp add: updateGameScore_live o_def)

lemma scoreInv_cong:
  assumes "scoreInv gid teamsData s" and "currentGameId s' = currentGameId s"
    and "teams s' = teams s" and "map team_id (gameScores s') = map team_id (gameScores s)"
  shows "scoreInv gid teamsData s'"
  using assms by (simp add: scoreInv_def)

lemma scoreInv_guessLetter:
  assumes "scoreInv gid teamsData (live g)" and "guessLetter updateOk g = Inr g'"
  shows "scoreInv gid teamsData (live g')"
proof (cases "inputLetter (live g) = []")
  case True
  with assms show ?thesis by (simp add: guessLetter_empty)
next
  case ne: False
  show ?thesis
  proof (cases "currentGameWord (live g)")
    case None
    with assms(2) ne show ?thesis by (simp add: guessLetter_no_word)
  next
    case (Some w)
    let ?L = "toUpperCase (inputLetter (live g))"
    show ?thesis
    proof (cases "\<not> includes_str (word w) ?L \<or> unrevealedPositions (live g) (word w) ?L = []")
      case True
      from guessLetter_wrong [OF ne Some True, of updateOk] assms(2)
      show ?thesis by (intro scoreInv_cong [OF assms(1)]) auto
    next
      case False
      then have inc: "includes_str (word w) ?L" by simp
      from False obtain p ps where U: "unrevealedPositions (live g) (word w) ?L = p # ps"
        by (cases "unrevealedPositions (live g) (word w) ?L") auto
      show ?thesis
      proof (cases "length (remdups ((revealedPositions (live g) @ [p]) @
                       defaultRevealedPositions (live g))) = length (word w)")
        case False
        from guessLetter_reveal [OF ne Some inc U False, of updateOk] assms(2)
        show ?thesis by (intro scoreInv_cong [OF assms(1)]) auto
      next
        case complete: True
        show ?thesis
        proof (cases "currentTeam (live g) < length (teams (live g))")
          case False
          from guessLetter_no_team [OF ne Some inc U complete False, of updateOk] assms(2)
          show ?thesis by simp
        next
          case True
          from guessLetter_win [OF ne Some inc U complete True, of updateOk] assms(2)
          have g': "g' = setState (\<lambda>s. s\<lparr>inputLetter := []\<rparr>)
                 (setTimeout NextWord (live g) 2000
                   (updateGameScore updateOk (live g) (t_id (teams (live g) ! currentTeam (live g)))
                      (if isPassedQuestion (live g) then 5 else points w)
                      \<lparr>live = (live g)\<lparr>guessedLetters := guessedLetters (live g) @ [?L],
                                 revealedPositions := revealedPositions (live g) @ [p],
                                 gameState := Won\<rparr>,
                       timers = timers g\<rparr>))"
            by simp
          show ?thesis
            by (rule scoreInv_cong [OF assms(1)]) (simp_all add: g' updateGameScore_rows)
        qed
      qed
    qed
  qed
qed

lemma scoreInv_passQuestion:
  assumes "scoreInv gid teamsData (live g)" and "passQuestion c g = Some g'"
  shows "scoreInv gid teamsData (live g')"
proof (cases "4 \<le> length (teamsAttempted c) + 1")
  case True
  from passQuestion_lost [OF True, of g] assms(2)
  show ?thesis by (intro scoreInv_cong [OF assms(1)]) auto
next
  case False
  then have "length (teamsAttempted c) + 1 < 4" by simp
  from passQuestion_next_team [OF this, of g] assms(2)
  show ?thesis by (intro scoreInv_cong [OF assms(1)]) auto
qed

lemma wordEffect_keeps:
  assumes "wordEffect draws before after = Some s'"
  shows "\<exists>ps. s' = after\<lparr>defaultRevealedPositions := ps\<rparr>"
proof (cases "(currentWordIndex after = currentWordIndex before \<and>
               currentGameWord after = currentGameWord before) \<or> currentGameWord after = None")
  case True
  with assms have "s' = after" by (auto simp: wordEffect_def split: if_splits)
  then have "s' = after\<lparr>defaultRevealedPositions := defaultRevealedPositions after\<rparr>" by simp
  then show ?thesis ..
next
  case False
  with assms show ?thesis
    by (auto simp: wordEffect_def generateDefaultRevealedPositions_def Let_def
        split: option.splits)
qed

lemma scoreInv_nextWord: "scoreInv gid teamsData s \<Longrightarrow> scoreInv gid teamsData (nextWord c s)"
  by (simp add: scoreInv_def nextWord_def resetGame_def Let_def)

lemma scoreInv_step:
  assumes "scoreInv gid teamsData (live g)" and "step e g = Some (Inr g')"
  shows "scoreInv gid teamsData (live g')"
proof (cases e)
  case (TypeLetter v)
  with assms(2) have "g' = (if gameState (live g) = Playing then typeLetter v g else g)" by simp
  then show ?thesis
    by (intro scoreInv_cong [OF assms(1)]) (simp_all add: typeLetter_def)
next
  case (ClickGuess updateOk)
  with assms(2) have "g' = g \<or> guessLetter updateOk g = Inr g'" by (auto split: if_splits)
  then show ?thesis using assms(1) scoreInv_guessLetter by blast
next
  case ClickPass
  with assms(2) have "g' = g \<or> passQuestion (live g) g = Some g'" by (auto split: if_splits)
  then show ?thesis using assms(1) scoreInv_passQuestion by blast
next
  case (TimerFires draws i)
  with assms(2) have f: "fire draws i g = Some g'" by auto
  show ?thesis
  proof (cases "i < length (timers g)")
    case False
    with f have "g' = g" by (simp add: fire_def)
    with assms(1) show ?thesis by simp
  next
    case True
    let ?rest = "take i (timers g) @ drop (Suc i) (timers g)"
    obtain d cb c where t: "timers g ! i = Timer d cb c" by (cases "timers g ! i") auto
    show ?thesis
    proof (cases cb)
      case PassQuestion
      with f True t have pq: "passQuestion c (g\<lparr>timers := ?rest\<rparr>) = Some g'"
        by (simp add: fire_def)
      have "scoreInv gid teamsData (live (g\<lparr>timers := ?rest\<rparr>))" using assms(1) by simp
      from scoreInv_passQuestion [OF this pq] show ?thesis .
    next
      case NextWord
      with f True t obtain s' where
        we: "wordEffect draws (live g) (nextWord c (live g)) = Some s'"
        and g': "g' = \<lparr>live = s', timers = ?rest\<rparr>"
        by (cases g) (auto simp: fire_def split: option.splits)
      from wordEffect_keeps [OF we] obtain ps where
        s': "s' = (nextWord c (live g))\<lparr>defaultRevealedPositions := ps\<rparr>" ..
      have "scoreInv gid teamsData (nextWord c (live g))"
        using assms(1) by (rule scoreInv_nextWord)
      then show ?thesis by (simp add: g' s' scoreInv_def)
    qed
  qed
qed

lemma scoreInv_run:
  assumes "scoreInv gid teamsData (live g)" and "run es g = Some (Inr g')"
  shows "scoreInv gid teamsData (live g')"
  using assms
proof (induction es arbitrary: g)
  case Nil
  then show ?case by simp
next
  case (Cons e es)
  from Cons.prems(2) obtain g1 where s: "step e g = Some (Inr g1)" and r: "run es g1 = Some (Inr g')"
    by (auto split: option.splits sum.splits)
  from Cons.IH [OF scoreInv_step [OF Cons.prems(1) s] r] show ?case .
qed

lemma scoreInv_startGame:
  assumes "startGame teamsData wordsData (Some gid) True draws = Some g0"
    and "teamsData \<noteq> []" and "wordsData \<noteq> []"
  shows "scoreInv gid teamsData (live g0)"
proof -
  let ?s = "loadInitialData teamsData wordsData (Some gid) True initialState"
  from assms(1) obtain s' where we: "wordEffect draws initialState ?s = Some s'"
    and g0: "g0 = \<lparr>live = s', timers = []\<rparr>"
    by (auto simp: startGame_def)
  from wordEffect_keeps [OF we] obtain ps where s': "s' = ?s\<lparr>defaultRevealedPositions := ps\<rparr>" ..
  have "scoreInv gid teamsData ?s"
    using assms(2,3)
    by (simp add: scoreInv_def loadInitialData_def autoStartGame_def resetGame_def Let_def o_def)
  then show ?thesis by (simp add: g0 s' scoreInv_def)
qed

lemma started_game_scores:
  assumes "startGame teamsData wordsData (Some gid) True draws = Some g0"
    and "teamsData \<noteq> []" and "wordsData \<noteq> []"
    and "run es g0 = Some (Inr g)"
  shows "currentGameId (live g) = Some gid" and "teams (live g) = teamsData"
    and "currentTeam (live g) < length teamsData \<Longrightarrow>
           \<exists>score \<in> set (gameScores (live g)).
              team_id score = t_id (teams (live g) ! currentTeam (live g))"
proof -
  from scoreInv_run [OF scoreInv_startGame [OF assms(1-3)] assms(4)]
  have i: "currentGameId (live g) = Some gid" "teams (live g) = teamsData"
    "map team_id (gameScores (live g)) = map t_id teamsData"
    by (simp_all add: scoreInv_def)
  then show "currentGameId (live g) = Some gid" and "teams (live g) = teamsData" by simp_all
  assume t: "currentTeam (live g) < length teamsData"
  let ?k = "currentTeam (live g)"
  have len: "length (gameScores (live g)) = length teamsData"
    using i(3) by (metis length_map)
  have "team_id (gameScores (live g) ! ?k) = t_id (teamsData ! ?k)"
    using i(3) t len by (metis nth_map)
  moreover have "gameScores (live g) ! ?k \<in> set (gameScores (live g))"
    using t len by simp
  ultimately show "\<exists>score \<in> set (gameScores (live g)).
              team_id score = t_id (teams (live g) ! currentTeam (live g))"
    using i(2) by auto
qed

section \<open>The older copy: where it differs\<close>

text \<open>
  The two caps give the same number of hint positions for every word of fewer than 14
  letters. In the older copy a guess of a letter that stands at a hint position (and
  is not in \<^verbatim>\<open>revealedPositions\<close>) appends that position, and a guess of a letter
  whose positions are all in \<^verbatim>\<open>revealedPositions\<close> changes neither the positions nor
  the wrong guesses.
\<close>

lemma numToReveal_page_cap:
  "numToReveal_page 14 = 3" "numToReveal 14 = 4"
  "wordLength < 14 \<Longrightarrow> numToReveal_page wordLength = numToReveal wordLength"
  by (auto simp: numToReveal_page_def numToReveal_def)

lemma guessLetter_page_hint_letter:
  "guessLetter_page True \<lparr>live = bananaShown, timers = []\<rparr> =
     Inr \<lparr>live = bananaShown\<lparr>guessedLetters := [''A'', ''A'', ''A''],
               revealedPositions := [3, 5, 1], inputLetter := []\<rparr>, timers = []\<rparr>"
  by code_simp

lemma guessLetter_page_all_revealed:
  "guessLetter_page True \<lparr>live = bananaShown\<lparr>revealedPositions := [3, 5, 1]\<rparr>, timers = []\<rparr> =
     Inr \<lparr>live = bananaShown\<lparr>guessedLetters := [''A'', ''A'', ''A''],
               revealedPositions := [3, 5, 1], inputLetter := []\<rparr>, timers = []\<rparr>"
  by code_simp

lemma guessLetter_page_first_occurrence:
  "guessLetter_page True \<lparr>live = bananaState, timers = []\<rparr> =
     Inr \<lparr>live = bananaState\<lparr>guessedLetters := [''A''], revealedPositions := [1],
               inputLetter := []\<rparr>, timers = []\<rparr>"
  by code_simp

section \<open>The scenarios of the specification\<close>

text \<open>
  The scenarios that the specification lists, run on the example game: CAT guessed
  with C, X, A, T; four wrong guesses and the pass that their timer runs; four teams
  that pass and the word that follows; and the same at the last word.
\<close>

lemma scenario_cat:
  "map_option (map_sum id (\<lambda>g. (gameState (live g), revealedPositions (live g),
                                  wrongGuesses (live g), guessedLetters (live g),
                                  teamPoints (live g) 1)))
     (run [TypeLetter ''c'', ClickGuess True, TypeLetter ''x'', ClickGuess True,
           TypeLetter ''a'', ClickGuess True, TypeLetter ''t'', ClickGuess True] exampleStart)
   = Some (Inr (Won, [0, 1, 2], 1, [''C'', ''X'', ''A'', ''T''], 10))"
  by code_simp

lemma scenario_four_wrong:
  "map_option (map_sum id (\<lambda>g. (wrongGuesses (live g), teamsAttempted (live g),
                                  currentTeam (live g), isPassedQuestion (live g),
                                  length (timers g))))
     (run (take 8 fiveWrong) exampleStart)
   = Some (Inr (4, [], 0, False, 1)) \<and>
   map_option (map_sum id (\<lambda>g. (wrongGuesses (live g), teamsAttempted (live g),
                                  currentTeam (live g), isPassedQuestion (live g),
                                  length (timers g))))
     (run (take 8 fiveWrong @ [TimerFires [] 0]) exampleStart)
   = Some (Inr (0, [0], 1, True, 0))"
  unfolding fiveWrong_def by code_simp

lemma scenario_all_teams_fail:
  "map_option (map_sum id (\<lambda>g. (gameState (live g), teamsAttempted (live g),
                                  currentWordIndex (live g), currentTeam (live g),
                                  originalTeamForQuestion (live g),
                                  defaultRevealedPositions (live g))))
     (run [ClickPass, ClickPass, ClickPass, ClickPass] exampleStart)
   = Some (Inr (Lost, [0, 1, 2, 3], 0, 3, 0, [])) \<and>
   map_option (map_sum id (\<lambda>g. (gameState (live g), teamsAttempted (live g),
                                  currentWordIndex (live g), currentTeam (live g),
                                  originalTeamForQuestion (live g),
                                  defaultRevealedPositions (live g))))
     (run [ClickPass, ClickPass, ClickPass, ClickPass, TimerFires [4, 4, 2] 0] exampleStart)
   = Some (Inr (Playing, [], 1, 1, 1, [4]))"
  by code_simp

lemma scenario_last_word:
  "map_option (map_sum id (\<lambda>g. (gameState (live g), currentWordIndex (live g))))
     (run [ClickPass, ClickPass, ClickPass, ClickPass, TimerFires [] 0]
        \<lparr>live = atWord 2, timers = []\<rparr>)
   = Some (Inr (Finished, 2))"
  by code_simp

end
